theory Spec2Isabelle
  imports Main "HOL-Library.Sublist"
begin

section \<open>Strings as the script uses them\<close>

text \<open>
  Python strings are modelled as \<open>string\<close>; one \<open>char\<close> stands for one code point
  below 256. The characters the script treats specially are named.
\<close>

definition dq :: char where
  "dq = CHR 0x22"

definition LF :: char where
  "LF = CHR 0x0A"

definition CR :: char where
  "CR = CHR 0x0D"

definition TAB :: char where
  "TAB = CHR 0x09"

text \<open>\<open>str.isspace\<close> on the code points below 256.\<close>

definition is_space :: "char \<Rightarrow> bool" where
  "is_space c = (c \<in> set [CHR 0x09, CHR 0x0A, CHR 0x0B, CHR 0x0C, CHR 0x0D,
                             CHR 0x1C, CHR 0x1D, CHR 0x1E, CHR 0x1F, CHR 0x20,
                             CHR 0x85, CHR 0xA0])"

text \<open>\<open>s.strip()\<close>: leading and trailing whitespace removed.\<close>

definition strip :: "string \<Rightarrow> string" where
  "strip s = rev (dropWhile is_space (rev (dropWhile is_space s)))"

text \<open>\<open>s.split(d)\<close> for a one-character separator: empty fields are kept, and the
  empty string gives one empty field.\<close>

fun split_on :: "char \<Rightarrow> string \<Rightarrow> string list" where
  "split_on d [] = [[]]"
| "split_on d (c # cs) =
     (if c = d then [] # split_on d cs
      else (case split_on d cs of [] \<Rightarrow> [[c]] | w # ws \<Rightarrow> (c # w) # ws))"

text \<open>\<open>sub in s\<close> for strings.\<close>

fun contains :: "string \<Rightarrow> string \<Rightarrow> bool" where
  "contains sub [] = (sub = [])"
| "contains sub (c # cs) = (prefix sub (c # cs) \<or> contains sub cs)"

text \<open>\<open>str(n)\<close> for an integer: decimal digits, a minus sign when negative.\<close>

definition digit_char :: "nat \<Rightarrow> char" where
  "digit_char d = ''0123456789'' ! d"

fun str_nat :: "nat \<Rightarrow> string" where
  "str_nat n = (if n < 10 then [digit_char n] else str_nat (n div 10) @ [digit_char (n mod 10)])"

definition str_int :: "int \<Rightarrow> string" where
  "str_int i = (if i < 0 then CHR ''-'' # str_nat (nat (- i)) else str_nat (nat i))"

text \<open>
  A text file opened with \<open>open(path, 'r', encoding='utf-8')\<close> is read with universal
  newlines: \<open>\r\n\<close> and a lone \<open>\r\<close> arrive as \<open>\n\<close>. Iterating the file yields
  its lines, each with its terminating \<open>\n\<close> (the last line may have none).
\<close>

fun universal_newlines :: "string \<Rightarrow> string" where
  "universal_newlines [] = []"
| "universal_newlines [c] = (if c = CR then [LF] else [c])"
| "universal_newlines (c # d # ds) =
     (if c = CR then (if d = LF then LF # universal_newlines ds
                      else LF # universal_newlines (d # ds))
      else c # universal_newlines (d # ds))"

fun readlines :: "string \<Rightarrow> string list" where
  "readlines [] = []"
| "readlines (c # cs) =
     (if c = LF then [c] # readlines cs
      else (case readlines cs of [] \<Rightarrow> [[c]] | l # ls \<Rightarrow> (c # l) # ls))"

section \<open>The file system\<close>

text \<open>
  A path names nothing, a directory, or a file. A file is either readable text or one
  that \<open>open\<close>/decoding fails on (no permission, not UTF-8). The file system is what
  the script observes of it through the path strings it uses: \<open>files\<close> tells what
  \<open>open\<close> finds under a string, \<open>dirs\<close> which strings name a directory. How a
  string is resolved (separators, ancestors, other spellings of one place) is the file
  system's business and is not computed here.
\<close>

datatype file_node = Text string | Unreadable

record world =
  files :: "string \<rightharpoonup> file_node"
  dirs :: "string set"

definition path_exists :: "world \<Rightarrow> string \<Rightarrow> bool" where
  "path_exists w p = (p \<in> dirs w \<or> files w p \<noteq> None)"

datatype error =
    FileNotFoundError string
  | OSError string
  | RuntimeError string
  | AttributeError string
  | TimeoutError
  | ControlError string

text \<open>\<open>open(path, 'r', encoding='utf-8')\<close> followed by reading the whole text.\<close>

definition read_text :: "world \<Rightarrow> string \<Rightarrow> error + string" where
  "read_text w p =
     (case files w p of
        None \<Rightarrow> (if p \<in> dirs w then Inl (OSError p) else Inl (FileNotFoundError p))
      | Some Unreadable \<Rightarrow> Inl (OSError p)
      | Some (Text raw) \<Rightarrow> Inr (universal_newlines raw))"

section \<open>Extractor\<close>

text \<open>
  The pattern of \<open>extract_mathml_blocks\<close> is
  \<^verbatim>\<open><math[^>]*altimg="([^"]+)"[^>]*>(.*?)</math>\<close> with \<open>re.DOTALL\<close>.
  Its pieces are written as backtracking matchers in continuation style: a matcher
  takes what follows in the pattern and the text at the current position, and returns
  the first success in the order in which the regex engine tries the alternatives.
  A repetition hands the text it consumed to what follows, which is how the two groups
  are captured.
\<close>

definition lit :: "string \<Rightarrow> (string \<Rightarrow> 'r option) \<Rightarrow> string \<Rightarrow> 'r option" where
  "lit l k s = (if prefix l s then k (drop (length l) s) else None)"

text \<open>\<open>[class]*\<close>, greedy: one more character is tried before what follows.\<close>

fun star_greedy ::
  "(char \<Rightarrow> bool) \<Rightarrow> (string \<Rightarrow> string \<Rightarrow> 'r option) \<Rightarrow> string \<Rightarrow> string \<Rightarrow> 'r option" where
  "star_greedy p k acc [] = k acc []"
| "star_greedy p k acc (c # cs) =
     (if p c then (case star_greedy p k (acc @ [c]) cs of
                     Some r \<Rightarrow> Some r
                   | None \<Rightarrow> k acc (c # cs))
      else k acc (c # cs))"

text \<open>\<open>[class]+\<close>, greedy: at least one character.\<close>

definition plus_greedy ::
  "(char \<Rightarrow> bool) \<Rightarrow> (string \<Rightarrow> string \<Rightarrow> 'r option) \<Rightarrow> string \<Rightarrow> 'r option" where
  "plus_greedy p k s = (case s of [] \<Rightarrow> None
                        | c # cs \<Rightarrow> if p c then star_greedy p k [c] cs else None)"

text \<open>\<open>[class]*?\<close>, lazy: what follows is tried before one more character.\<close>

fun star_lazy ::
  "(char \<Rightarrow> bool) \<Rightarrow> (string \<Rightarrow> string \<Rightarrow> 'r option) \<Rightarrow> string \<Rightarrow> string \<Rightarrow> 'r option" where
  "star_lazy p k acc [] = k acc []"
| "star_lazy p k acc (c # cs) =
     (case k acc (c # cs) of
        Some r \<Rightarrow> Some r
      | None \<Rightarrow> if p c then star_lazy p k (acc @ [c]) cs else None)"

text \<open>The whole pattern at one position: the two groups and the text after the match.\<close>

definition match_math :: "string \<Rightarrow> (string \<times> string \<times> string) option" where
  "match_math =
     lit ''<math''
       (star_greedy (\<lambda>c. c \<noteq> CHR ''>'') (\<lambda>_.
          lit (''altimg='' @ [dq])
            (plus_greedy (\<lambda>c. c \<noteq> dq) (\<lambda>alt.
               lit [dq]
                 (star_greedy (\<lambda>c. c \<noteq> CHR ''>'') (\<lambda>_.
                    lit ''>''
                      (star_lazy (\<lambda>_. True) (\<lambda>content.
                         lit ''</math>'' (\<lambda>rest. Some (alt, content, rest))) [])) [])))) [])"

lemma lit_SomeD:
  "lit l k s = Some r \<Longrightarrow> \<exists>t. s = l @ t \<and> k t = Some r"
  by (auto simp: lit_def prefix_def split: if_splits)

lemma star_greedy_SomeD:
  "star_greedy p k acc s = Some r \<Longrightarrow>
     \<exists>m t. s = m @ t \<and> list_all p m \<and> k (acc @ m) t = Some r"
proof (induction s arbitrary: acc)
  case Nil
  then show ?case by simp
next
  case (Cons c cs)
  show ?case
  proof (cases "p c \<and> star_greedy p k (acc @ [c]) cs \<noteq> None")
    case True
    with Cons.prems have "star_greedy p k (acc @ [c]) cs = Some r"
      by (auto split: option.splits)
    from Cons.IH[OF this] obtain m t where
      "cs = m @ t" "list_all p m" "k ((acc @ [c]) @ m) t = Some r" by blast
    with True have "c # cs = (c # m) @ t \<and> list_all p (c # m) \<and> k (acc @ (c # m)) t = Some r"
      by simp
    then show ?thesis by blast
  next
    case False
    with Cons.prems have "k acc (c # cs) = Some r"
      by (auto split: option.splits if_splits)
    then have "c # cs = [] @ (c # cs) \<and> list_all p [] \<and> k (acc @ []) (c # cs) = Some r"
      by simp
    then show ?thesis by blast
  qed
qed

lemma plus_greedy_SomeD:
  "plus_greedy p k s = Some r \<Longrightarrow>
     \<exists>m t. s = m @ t \<and> m \<noteq> [] \<and> list_all p m \<and> k m t = Some r"
proof (cases s)
  case Nil
  assume "plus_greedy p k s = Some r"
  with Nil show ?thesis by (simp add: plus_greedy_def)
next
  case (Cons c cs)
  assume a: "plus_greedy p k s = Some r"
  with Cons have pc: "p c" and "star_greedy p k [c] cs = Some r"
    by (auto simp: plus_greedy_def split: if_splits)
  from star_greedy_SomeD[OF this(2)] obtain m t where
    "cs = m @ t" "list_all p m" "k ([c] @ m) t = Some r" by blast
  with Cons pc have "s = (c # m) @ t \<and> c # m \<noteq> [] \<and> list_all p (c # m) \<and> k (c # m) t = Some r"
    by simp
  then show ?thesis by blast
qed

lemma star_lazy_SomeD:
  "star_lazy p k acc s = Some r \<Longrightarrow>
     \<exists>m t. s = m @ t \<and> list_all p m \<and> k (acc @ m) t = Some r"
proof (induction s arbitrary: acc)
  case Nil
  then show ?case by simp
next
  case (Cons c cs)
  show ?case
  proof (cases "k acc (c # cs)")
    case (Some r')
    with Cons.prems have "k acc (c # cs) = Some r" by simp
    then have "c # cs = [] @ (c # cs) \<and> list_all p [] \<and> k (acc @ []) (c # cs) = Some r"
      by simp
    then show ?thesis by blast
  next
    case None
    with Cons.prems have pc: "p c" and "star_lazy p k (acc @ [c]) cs = Some r"
      by (auto split: if_splits)
    from Cons.IH[OF this(2)] obtain m t where
      "cs = m @ t" "list_all p m" "k ((acc @ [c]) @ m) t = Some r" by blast
    with pc have "c # cs = (c # m) @ t \<and> list_all p (c # m) \<and> k (acc @ (c # m)) t = Some r"
      by simp
    then show ?thesis by blast
  qed
qed

text \<open>What a match at one position looks like in the text.\<close>

lemma match_math_SomeD:
  assumes "match_math s = Some (alt, content, rest)"
  shows "\<exists>a1 a2. s = ''<math'' @ a1 @ ''altimg='' @ [dq] @ alt @ [dq] @ a2 @ ''>''
                       @ content @ ''</math>'' @ rest
                 \<and> list_all (\<lambda>c. c \<noteq> CHR ''>'') a1 \<and> alt \<noteq> []
                 \<and> list_all (\<lambda>c. c \<noteq> dq) alt \<and> list_all (\<lambda>c. c \<noteq> CHR ''>'') a2"
proof -
  from assms obtain t1 where s1: "s = ''<math'' @ t1" and
    m1: "star_greedy (\<lambda>c. c \<noteq> CHR ''>'') (\<lambda>_.
          lit (''altimg='' @ [dq])
            (plus_greedy (\<lambda>c. c \<noteq> dq) (\<lambda>alt.
               lit [dq]
                 (star_greedy (\<lambda>c. c \<noteq> CHR ''>'') (\<lambda>_.
                    lit ''>''
                      (star_lazy (\<lambda>_. True) (\<lambda>content.
                         lit ''</math>'' (\<lambda>rest. Some (alt, content, rest))) [])) [])))) [] t1
         = Some (alt, content, rest)"
    unfolding match_math_def by (blast dest: lit_SomeD)
  from star_greedy_SomeD[OF m1] obtain a1 t2 where s2: "t1 = a1 @ t2"
    and a1: "list_all (\<lambda>c. c \<noteq> CHR ''>'') a1" and
    m2: "lit (''altimg='' @ [dq])
            (plus_greedy (\<lambda>c. c \<noteq> dq) (\<lambda>alt.
               lit [dq]
                 (star_greedy (\<lambda>c. c \<noteq> CHR ''>'') (\<lambda>_.
                    lit ''>''
                      (star_lazy (\<lambda>_. True) (\<lambda>content.
                         lit ''</math>'' (\<lambda>rest. Some (alt, content, rest))) [])) []))) t2
         = Some (alt, content, rest)"
    by blast
  from lit_SomeD[OF m2] obtain t3 where s3: "t2 = (''altimg='' @ [dq]) @ t3" and
    m3: "plus_greedy (\<lambda>c. c \<noteq> dq) (\<lambda>alt.
               lit [dq]
                 (star_greedy (\<lambda>c. c \<noteq> CHR ''>'') (\<lambda>_.
                    lit ''>''
                      (star_lazy (\<lambda>_. True) (\<lambda>content.
                         lit ''</math>'' (\<lambda>rest. Some (alt, content, rest))) [])) [])) t3
         = Some (alt, content, rest)"
    by blast
  from plus_greedy_SomeD[OF m3] obtain g1 t4 where s4: "t3 = g1 @ t4" and g1: "g1 \<noteq> []"
    "list_all (\<lambda>c. c \<noteq> dq) g1" and
    m4: "lit [dq]
                 (star_greedy (\<lambda>c. c \<noteq> CHR ''>'') (\<lambda>_.
                    lit ''>''
                      (star_lazy (\<lambda>_. True) (\<lambda>content.
                         lit ''</math>'' (\<lambda>rest. Some (g1, content, rest))) [])) []) t4
         = Some (alt, content, rest)"
    by blast
  from lit_SomeD[OF m4] obtain t5 where s5: "t4 = [dq] @ t5" and
    m5: "star_greedy (\<lambda>c. c \<noteq> CHR ''>'') (\<lambda>_.
                    lit ''>''
                      (star_lazy (\<lambda>_. True) (\<lambda>content.
                         lit ''</math>'' (\<lambda>rest. Some (g1, content, rest))) [])) [] t5
         = Some (alt, content, rest)"
    by blast
  from star_greedy_SomeD[OF m5] obtain a2 t6 where s6: "t5 = a2 @ t6"
    and a2: "list_all (\<lambda>c. c \<noteq> CHR ''>'') a2" and
    m6: "lit ''>''
            (star_lazy (\<lambda>_. True) (\<lambda>content.
               lit ''</math>'' (\<lambda>rest. Some (g1, content, rest))) []) t6
         = Some (alt, content, rest)"
    by blast
  from lit_SomeD[OF m6] obtain t7 where s7: "t6 = ''>'' @ t7" and
    m7: "star_lazy (\<lambda>_. True) (\<lambda>content.
               lit ''</math>'' (\<lambda>rest. Some (g1, content, rest))) [] t7
         = Some (alt, content, rest)"
    by blast
  from star_lazy_SomeD[OF m7] obtain g2 t8 where s8: "t7 = g2 @ t8" and
    m8: "lit ''</math>'' (\<lambda>rest. Some (g1, [] @ g2, rest)) t8 = Some (alt, content, rest)"
    by blast
  from lit_SomeD[OF m8] obtain t9 where s9: "t8 = ''</math>'' @ t9" and
    m9: "Some (g1, [] @ g2, t9) = Some (alt, content, rest)"
    by blast
  from m9 have e: "g1 = alt" "g2 = content" "t9 = rest" by simp_all
  have "s = ''<math'' @ a1 @ ''altimg='' @ [dq] @ alt @ [dq] @ a2 @ ''>''
              @ content @ ''</math>'' @ rest"
    unfolding s1 s2 s3 s4 s5 s6 s7 s8 s9 e by simp
  with a1 a2 g1 e show ?thesis by blast
qed

lemma match_math_shorter:
  "match_math s = Some (alt, content, rest) \<Longrightarrow> length rest < length s"
  by (drule match_math_SomeD) auto

text \<open>\<open>re.findall\<close>: scan from the left; after a match go on behind it, otherwise
  one character further. A match is never empty.\<close>

function findall :: "string \<Rightarrow> (string \<times> string) list" where
  "findall s =
     (case match_math s of
        Some (alt, content, rest) \<Rightarrow> (alt, content) # findall rest
      | None \<Rightarrow> (case s of [] \<Rightarrow> [] | _ # cs \<Rightarrow> findall cs))"
  by pat_completeness auto
termination
  by (relation "measure length") (auto dest: match_math_shorter)

declare findall.simps [simp del]

definition rebuild :: "string \<times> string \<Rightarrow> string \<times> string" where
  "rebuild m = (case m of (alt, content) \<Rightarrow>
     (''<math altimg='' @ [dq] @ alt @ [dq] @ ''>'' @ content @ ''</math>'', alt))"

definition extract_mathml_blocks :: "world \<Rightarrow> string \<Rightarrow> error + (string \<times> string) list" where
  "extract_mathml_blocks w xml_path =
     (case read_text w xml_path of
        Inl e \<Rightarrow> Inl e
      | Inr xml_content \<Rightarrow> Inr (map rebuild (findall xml_content)))"

section \<open>Log records\<close>

text \<open>Every \<open>logging\<close> call of the script is one constructor, with the values its
  message is formatted from.\<close>

datatype msg =
    Found_math_blocks nat
  | Saved_all_blocks string
  | Preference_report_not_found string
  | Connected_to_running
  | Started_new_instance
  | Window_not_found_during_preference
  | Applied_preference string
  | Clicked_OK_in_preferences
  | Could_not_apply_preference string
  | Saved_EPS string
  | Closed_current_window
  | Could_not_close_window
  | Popup_detected string
  | Failed_to_print_identifiers
  | Sent_ESC_to_popup string
  | Failed_to_send_keys string
  | No_popup_detected
  | Error_while_dismissing error
  | Processing_equation nat
  | No_preference_found string
  | Error_processing nat error
  | Popup_dismissed_moving_on
  | No_popup_found_moving_on
  | Saved_failed_placeholder string
  | Done_processing

section \<open>Run state\<close>

text \<open>
  \<open>eqn_counter\<close> is the global of the script. \<open>artifacts\<close> lists, in the order of
  their creation, the names of the files that appear in \<open>OUTPUT_DIR\<close>: a real
  \<open>Eqn{n}.eps\<close> once the Save button of the dialog has been clicked, a placeholder
  once the failure branch has written it.
\<close>

record state =
  eqn_counter :: int
  artifacts :: "string list"
  log :: "msg list"

definition initial_state :: state where
  "initial_state = \<lparr>eqn_counter = 1, artifacts = [], log = []\<rparr>"

definition emit :: "msg \<Rightarrow> state \<Rightarrow> state" where
  "emit m st = st\<lparr>log := log st @ [m]\<rparr>"

section \<open>PreferenceMap loader\<close>

fun parse_report_lines :: "(string \<rightharpoonup> string) \<Rightarrow> string list \<Rightarrow> (string \<rightharpoonup> string)" where
  "parse_report_lines mapping [] = mapping"
| "parse_report_lines mapping (line # ls) =
     (let parts = split_on TAB (strip line) in
      if length parts \<ge> 2
      then parse_report_lines (mapping(strip (parts ! 0) \<mapsto> strip (parts ! 1))) ls
      else parse_report_lines mapping ls)"

definition read_eps_preferences ::
  "world \<Rightarrow> string \<Rightarrow> state \<Rightarrow> (error + (string \<rightharpoonup> string)) \<times> state" where
  "read_eps_preferences w report_file st =
     (if \<not> path_exists w report_file
      then (Inr Map.empty, emit (Preference_report_not_found report_file) st)
      else (case read_text w report_file of
              Inl e \<Rightarrow> (Inl e, st)
            | Inr content \<Rightarrow> (Inr (parse_report_lines Map.empty (readlines content)), st)))"

section \<open>The control channel\<close>

text \<open>
  The external application is reached through calls that may raise: \<open>pywinauto\<close>,
  \<open>send_keys\<close> and \<open>pyperclip\<close>. What each of these calls does on a run is an input
  of the model. A window carries its title, its class and whether the calls made on it
  succeed. The calls of \<open>logging\<close> and \<open>time.sleep\<close>, and the writing of the
  intermediate file and of a placeholder, are taken to return normally.
\<close>

record window =
  window_text :: string
  class_name :: string
  set_focus_ok :: bool
  print_ok :: bool
  esc_ok :: bool

text \<open>
  \<open>get_main_window\<close> polls \<open>app.windows()\<close> until the timeout has passed. Its
  argument lists what the enumeration gave on each iteration that started before the
  timeout: the windows, or the exception it raised. When the list is used up the
  timeout has expired.
\<close>

definition is_main_window :: "window \<Rightarrow> bool" where
  "is_main_window w = (contains ''MathType'' (window_text w) \<and> class_name w = ''EQNWINCLASS'')"

fun get_main_window :: "(error + window list) list \<Rightarrow> error + window option" where
  "get_main_window [] = Inr None"
| "get_main_window (Inl e # polls) = Inl e"
| "get_main_window (Inr ws # polls) =
     (case find is_main_window ws of
        Some w \<Rightarrow> Inr (Some w)
      | None \<Rightarrow> get_main_window polls)"

text \<open>An optional dialog: not there, accepted, or a call on it raised.\<close>

datatype dialog = Absent | Accepted | Failing

text \<open>What the control channel does while one unit is processed, call by call in
  the order of the script.\<close>

record unit_env =
  copy_ok :: bool
  clear_keys_ok :: bool
  paste_keys_ok :: bool
  pref_polls :: "(error + window list) list"
  select_keys_ok :: bool
  pref_menu_ok :: bool
  pref_dialog :: dialog
  save_polls :: "(error + window list) list"
  save_menu_ok :: bool
  save_dlg_visible :: bool
  set_edit_text_ok :: bool
  save_click_ok :: bool
  close_polls :: "(error + window list) list"
  close_keys_ok :: bool
  popup_windows :: "error + window list"

record ui_env =
  connect_ok :: bool
  start_ok :: bool
  init_polls :: "(error + window list) list"
  units :: "nat \<Rightarrow> unit_env"

section \<open>Renderer controller\<close>

definition paste_mathml_to_mathtype :: "unit_env \<Rightarrow> error + unit" where
  "paste_mathml_to_mathtype env =
     (if \<not> clear_keys_ok env then Inl (ControlError ''send_keys'')
      else if \<not> paste_keys_ok env then Inl (ControlError ''send_keys'')
      else Inr ())"

text \<open>The optional dialog of \<open>apply_preferences\<close> sits in a \<open>try\<close> whose handler
  is \<open>pass\<close>: only an accepted dialog leaves a trace.\<close>

definition apply_preferences :: "unit_env \<Rightarrow> string \<Rightarrow> state \<Rightarrow> (error + unit) \<times> state" where
  "apply_preferences env preference_name st =
     (case get_main_window (pref_polls env) of
        Inl e \<Rightarrow> (Inl e, st)
      | Inr None \<Rightarrow> (Inr (), emit Window_not_found_during_preference st)
      | Inr (Some main_win) \<Rightarrow>
          if \<not> set_focus_ok main_win then (Inl (ControlError ''set_focus''), st)
          else if \<not> select_keys_ok env then (Inl (ControlError ''send_keys''), st)
          else if \<not> pref_menu_ok env
            then (Inr (), emit (Could_not_apply_preference preference_name) st)
          else (case pref_dialog env of
                  Accepted \<Rightarrow>
                    (Inr (), emit Clicked_OK_in_preferences
                               (emit (Applied_preference preference_name) st))
                | _ \<Rightarrow> (Inr (), emit (Applied_preference preference_name) st)))"

text \<open>The confirmation dialog after the click on Save is in a \<open>try\<close> whose handler
  is \<open>pass\<close> and logs nothing, so it has no branch here.\<close>

definition save_as_eps :: "unit_env \<Rightarrow> state \<Rightarrow> (error + string) \<times> state" where
  "save_as_eps env st =
     (case get_main_window (save_polls env) of
        Inl e \<Rightarrow> (Inl e, st)
      | Inr None \<Rightarrow> (Inl (RuntimeError ''MathType main window not found during EPS save.''), st)
      | Inr (Some main_win) \<Rightarrow>
          if \<not> save_menu_ok env then (Inl (ControlError ''menu_select''), st)
          else if \<not> save_dlg_visible env then (Inl TimeoutError, st)
          else
            let eps_name = ''Eqn'' @ str_int (eqn_counter st) @ ''.eps'';
                st1 = st\<lparr>eqn_counter := eqn_counter st + 1\<rparr>
            in if \<not> set_edit_text_ok env then (Inl (ControlError ''set_edit_text''), st1)
               else if \<not> save_click_ok env then (Inl (ControlError ''click''), st1)
               else (Inr eps_name,
                     emit (Saved_EPS eps_name) (st1\<lparr>artifacts := artifacts st1 @ [eps_name]\<rparr>)))"

definition close_current_window :: "unit_env \<Rightarrow> state \<Rightarrow> state" where
  "close_current_window env st =
     (case get_main_window (close_polls env) of
        Inl e \<Rightarrow> emit Could_not_close_window st
      | Inr None \<Rightarrow> st
      | Inr (Some main_win) \<Rightarrow>
          if set_focus_ok main_win \<and> close_keys_ok env then emit Closed_current_window st
          else emit Could_not_close_window st)"

section \<open>Failure recovery\<close>

text \<open>\<open>str.lower\<close> on the code points below 256.\<close>

definition lower_char :: "char \<Rightarrow> char" where
  "lower_char c =
     (let n = (of_char c :: nat) in
      if (65 \<le> n \<and> n \<le> 90) \<or> (192 \<le> n \<and> n \<le> 222 \<and> n \<noteq> 215) then char_of (n + 32) else c)"

definition lower :: "string \<Rightarrow> string" where
  "lower s = map lower_char s"

definition popup_keywords :: "string list" where
  "popup_keywords = [''error'', ''math'', ''warning'', ''confirm'', ''save'', ''server'']"

definition is_popup_title :: "string \<Rightarrow> bool" where
  "is_popup_title t = list_ex (\<lambda>keyword. contains keyword (lower t)) popup_keywords"

fun dismiss_loop :: "window list \<Rightarrow> state \<Rightarrow> bool \<times> state" where
  "dismiss_loop [] st = (False, emit No_popup_detected st)"
| "dismiss_loop (w # ws) st =
     (if is_popup_title (window_text w) then
        let st1 = emit (Popup_detected (window_text w)) st;
            st2 = (if print_ok w then st1 else emit Failed_to_print_identifiers st1)
        in if set_focus_ok w \<and> esc_ok w
           then (True, emit (Sent_ESC_to_popup (window_text w)) st2)
           else dismiss_loop ws (emit (Failed_to_send_keys (window_text w)) st2)
      else dismiss_loop ws st)"

definition dismiss_error_popup :: "error + window list \<Rightarrow> state \<Rightarrow> bool \<times> state" where
  "dismiss_error_popup all_windows st =
     (case all_windows of
        Inl e \<Rightarrow> (False, emit (Error_while_dismissing e) st)
      | Inr ws \<Rightarrow> dismiss_loop ws st)"

section \<open>Orchestrator\<close>

text \<open>The body of the \<open>try\<close> for one unit.\<close>

definition happy_path ::
  "(string \<rightharpoonup> string) \<Rightarrow> unit_env \<Rightarrow> state \<Rightarrow> (error + unit) \<times> state" where
  "happy_path eps_pref_map env st =
     (if \<not> copy_ok env then (Inl (ControlError ''pyperclip.copy''), st)
      else (case paste_mathml_to_mathtype env of
              Inl e \<Rightarrow> (Inl e, st)
            | Inr _ \<Rightarrow>
                let eps_filename = ''Eqn'' @ str_int (eqn_counter st) @ ''.eps'';
                    applied =
                      (case eps_pref_map eps_filename of
                         None \<Rightarrow> (Inr (), emit (No_preference_found eps_filename) st)
                       | Some preference \<Rightarrow>
                           if preference \<noteq> [] then apply_preferences env preference st
                           else (Inr (), emit (No_preference_found eps_filename) st))
                in (case applied of
                      (Inl e, st1) \<Rightarrow> (Inl e, st1)
                    | (Inr _, st1) \<Rightarrow>
                        (case save_as_eps env st1 of
                           (Inl e, st2) \<Rightarrow> (Inl e, st2)
                         | (Inr _, st2) \<Rightarrow> (Inr (), close_current_window env st2)))))"

text \<open>The \<open>except Exception\<close> branch for one unit. The placeholder is named after the
  value the counter has when the branch is entered.\<close>

definition recover :: "nat \<Rightarrow> error \<Rightarrow> unit_env \<Rightarrow> state \<Rightarrow> state" where
  "recover i e env st =
     (let st1 = emit (Error_processing i e) st;
          (dismissed, st2) = dismiss_error_popup (popup_windows env) st1;
          st3 = emit (if dismissed then Popup_dismissed_moving_on else No_popup_found_moving_on) st2;
          failed_eps_name = ''Eqn'' @ str_int (eqn_counter st3) @ ''_failed.eps'';
          st4 = emit (Saved_failed_placeholder failed_eps_name)
                  (st3\<lparr>artifacts := artifacts st3 @ [failed_eps_name]\<rparr>)
      in st4\<lparr>eqn_counter := eqn_counter st4 + 1\<rparr>)"

definition process_unit ::
  "(string \<rightharpoonup> string) \<Rightarrow> nat \<Rightarrow> unit_env \<Rightarrow> state \<Rightarrow> state" where
  "process_unit eps_pref_map i env st =
     (case happy_path eps_pref_map env (emit (Processing_equation i) st) of
        (Inr _, st1) \<Rightarrow> st1
      | (Inl e, st1) \<Rightarrow> recover i e env st1)"

text \<open>The loop over the lines of the intermediate file; \<open>i\<close> is the line number of
  \<open>enumerate(f, 1)\<close>, and a blank line is skipped.\<close>

fun process_lines ::
  "(string \<rightharpoonup> string) \<Rightarrow> (nat \<Rightarrow> unit_env) \<Rightarrow> nat \<Rightarrow> string list \<Rightarrow> state \<Rightarrow> state" where
  "process_lines eps_pref_map envs i [] st = st"
| "process_lines eps_pref_map envs i (line # ls) st =
     (let block = strip line in
      if block = [] then process_lines eps_pref_map envs (Suc i) ls st
      else process_lines eps_pref_map envs (Suc i) ls
             (process_unit eps_pref_map i (envs i) st))"

definition connect_or_start_mathtype :: "ui_env \<Rightarrow> state \<Rightarrow> (error + unit) \<times> state" where
  "connect_or_start_mathtype ui st =
     (if connect_ok ui then (Inr (), emit Connected_to_running st)
      else if start_ok ui then (Inr (), emit Started_new_instance st)
      else (Inl (ControlError ''Application.start''), st))"

definition process_mathml_blocks_from_file ::
  "world \<Rightarrow> string \<Rightarrow> (string \<rightharpoonup> string) \<Rightarrow> ui_env \<Rightarrow> state \<Rightarrow> (error + unit) \<times> state" where
  "process_mathml_blocks_from_file w txt_path eps_pref_map ui st =
     (case connect_or_start_mathtype ui st of
        (Inl e, st0) \<Rightarrow> (Inl e, st0)
      | (Inr _, st0) \<Rightarrow>
          (case get_main_window (init_polls ui) of
             Inl e \<Rightarrow> (Inl e, st0)
           | Inr None \<Rightarrow> (Inl (AttributeError ''set_focus''), st0)
           | Inr (Some main_win) \<Rightarrow>
               if \<not> set_focus_ok main_win then (Inl (ControlError ''set_focus''), st0)
               else (case read_text w txt_path of
                       Inl e \<Rightarrow> (Inl e, st0)
                     | Inr content \<Rightarrow>
                         (Inr (), emit Done_processing
                                    (process_lines eps_pref_map (units ui) 1
                                       (readlines content) st0)))))"

section \<open>Entry point\<close>

text \<open>\<open>write_mathml_to_file\<close>: one line per block, stripped and with its newlines
  removed. The file holds the text as written, and the script reads it back under the
  string it wrote it under.\<close>

definition normalize_block :: "string \<Rightarrow> string" where
  "normalize_block block = filter (\<lambda>c. c \<noteq> LF) (strip block) @ [LF]"

definition write_mathml_to_file ::
  "(string \<times> string) list \<Rightarrow> string \<Rightarrow> world \<Rightarrow> state \<Rightarrow> world \<times> state" where
  "write_mathml_to_file blocks filepath w st =
     (w\<lparr>files := (files w)(filepath \<mapsto> Text (concat (map (\<lambda>b. normalize_block (fst b)) blocks)))\<rparr>,
      emit (Saved_all_blocks filepath) st)"

text \<open>
  \<open>os.makedirs(OUTPUT_DIR, exist_ok=True)\<close> resolves the path and creates what is
  missing of it, ancestors first; it raises when it cannot, possibly after some
  ancestors have been created. What the call does is an input of the model, like the
  calls of the control channel: the path strings that name a directory after the call
  and did not before (the output directory and every ancestor created, in every
  spelling the script uses), and the exception if one is raised.
\<close>

datatype makedirs_effect = Created "string set" | Failed "string set" error

text \<open>
  What the module body has at hand before \<open>__main__\<close>. \<open>XML_FILE\<close> is what the
  user typed; \<open>OUTPUT_DIR\<close>, \<open>REPORT_FILE\<close> and \<open>MATHML_TXT_PATH\<close> are what
  \<open>os.path\<close> computes from it and from the home directory, and are taken as given,
  as is what \<open>os.makedirs\<close> does for \<open>OUTPUT_DIR\<close>.
\<close>

record inputs =
  XML_FILE :: string
  OUTPUT_DIR :: string
  makedirs_does :: makedirs_effect
  REPORT_FILE :: string
  MATHML_TXT_PATH :: string
  pyperclip_installed :: bool

definition MATHTYPE_PATH :: string where
  "MATHTYPE_PATH = ''C:'' @ [CHR 0x5C] @ ''Program Files (x86)'' @ [CHR 0x5C] @ ''MathType''
                     @ [CHR 0x5C] @ ''MathType.exe''"

text \<open>What \<open>print\<close> writes before \<open>sys.exit(1)\<close>.\<close>

datatype notice =
    Please_install_pyperclip
  | XML_file_does_not_exist string
  | MathType_not_found_at_path string
  | No_math_blocks_found

text \<open>How the process ends: it runs to the end, it calls \<open>sys.exit\<close>, or an
  exception reaches the top level (the interpreter then exits with status 1).\<close>

datatype outcome = Finished | Exit int | Uncaught error

definition exit_status :: "outcome \<Rightarrow> int" where
  "exit_status out = (case out of Finished \<Rightarrow> 0 | Exit n \<Rightarrow> n | Uncaught e \<Rightarrow> 1)"

record run_result =
  outcome :: outcome
  printed :: "notice list"
  final_world :: world
  final_state :: state

text \<open>
  The module body and the \<open>__main__\<close> block. \<open>os.makedirs(OUTPUT_DIR, exist_ok=True)\<close>
  runs first, at module level; an exception it raises is not caught. Every check of
  \<open>__main__\<close> looks at the file system as the call has left it.
\<close>

definition main :: "inputs \<Rightarrow> ui_env \<Rightarrow> world \<Rightarrow> run_result" where
  "main inp ui w0 =
     (case makedirs_does inp of
        Failed new e \<Rightarrow>
          \<lparr>outcome = Uncaught e, printed = [],
           final_world = w0\<lparr>dirs := dirs w0 \<union> new\<rparr>, final_state = initial_state\<rparr>
      | Created new \<Rightarrow>
        let w = w0\<lparr>dirs := dirs w0 \<union> new\<rparr> in
        if \<not> pyperclip_installed inp
        then \<lparr>outcome = Exit 1, printed = [Please_install_pyperclip],
              final_world = w, final_state = initial_state\<rparr>
        else if \<not> path_exists w (XML_FILE inp)
        then \<lparr>outcome = Exit 1, printed = [XML_file_does_not_exist (XML_FILE inp)],
              final_world = w, final_state = initial_state\<rparr>
        else if \<not> path_exists w MATHTYPE_PATH
        then \<lparr>outcome = Exit 1, printed = [MathType_not_found_at_path MATHTYPE_PATH],
              final_world = w, final_state = initial_state\<rparr>
        else
          (case extract_mathml_blocks w (XML_FILE inp) of
             Inl e \<Rightarrow> \<lparr>outcome = Uncaught e, printed = [],
                       final_world = w, final_state = initial_state\<rparr>
           | Inr mathml_blocks \<Rightarrow>
               if mathml_blocks = []
               then \<lparr>outcome = Exit 1, printed = [No_math_blocks_found],
                     final_world = w, final_state = initial_state\<rparr>
               else
                 (case write_mathml_to_file mathml_blocks (MATHML_TXT_PATH inp) w
                         (emit (Found_math_blocks (length mathml_blocks)) initial_state) of
                    (w1, st1) \<Rightarrow>
                      (case read_eps_preferences w1 (REPORT_FILE inp) st1 of
                         (Inl e, st2) \<Rightarrow> \<lparr>outcome = Uncaught e, printed = [],
                                           final_world = w1, final_state = st2\<rparr>
                       | (Inr eps_pref_map, st2) \<Rightarrow>
                           (case process_mathml_blocks_from_file w1 (MATHML_TXT_PATH inp)
                                   eps_pref_map ui st2 of
                              (Inl e, st3) \<Rightarrow> \<lparr>outcome = Uncaught e, printed = [],
                                                final_world = w1, final_state = st3\<rparr>
                            | (Inr _, st3) \<Rightarrow> \<lparr>outcome = Finished, printed = [],
                                                final_world = w1, final_state = st3\<rparr>)))))"

section \<open>Observations on the log, scenarios and example data\<close>

text \<open>Each call of \<open>dismiss_error_popup\<close> logs exactly one of three records as it
  returns; counting them in the log counts the calls.\<close>

fun is_dismiss_return :: "msg \<Rightarrow> bool" where
  "is_dismiss_return (Sent_ESC_to_popup t) = True"
| "is_dismiss_return No_popup_detected = True"
| "is_dismiss_return (Error_while_dismissing e) = True"
| "is_dismiss_return m = False"

definition dismiss_calls :: "msg list \<Rightarrow> nat" where
  "dismiss_calls l = length (filter is_dismiss_return l)"

text \<open>Entering the body of the loop for a unit logs \<open>Processing equation i\<close>;
  counting these records counts how often a unit was started.\<close>

fun is_unit_start :: "msg \<Rightarrow> bool" where
  "is_unit_start (Processing_equation i) = True"
| "is_unit_start m = False"

definition unit_starts :: "msg list \<Rightarrow> nat" where
  "unit_starts l = length (filter is_unit_start l)"

text \<open>Scenarios for one unit: the main window is found and takes the focus; every
  call of the unit succeeds; only the wait for the save dialog fails.\<close>

definition reaches_main_window :: "(error + window list) list \<Rightarrow> bool" where
  "reaches_main_window polls =
     (case get_main_window polls of Inr (Some w) \<Rightarrow> set_focus_ok w | _ \<Rightarrow> False)"

definition all_steps_succeed :: "unit_env \<Rightarrow> bool" where
  "all_steps_succeed env =
     (copy_ok env \<and> clear_keys_ok env \<and> paste_keys_ok env
      \<and> reaches_main_window (pref_polls env) \<and> select_keys_ok env \<and> pref_menu_ok env
      \<and> reaches_main_window (save_polls env) \<and> save_menu_ok env \<and> save_dlg_visible env
      \<and> set_edit_text_ok env \<and> save_click_ok env
      \<and> reaches_main_window (close_polls env) \<and> close_keys_ok env)"

definition save_dialog_times_out :: "unit_env \<Rightarrow> bool" where
  "save_dialog_times_out env =
     (\<not> save_dlg_visible env \<and> all_steps_succeed (env\<lparr>save_dlg_visible := True\<rparr>))"

definition startup_succeeds :: "ui_env \<Rightarrow> bool" where
  "startup_succeeds ui = ((connect_ok ui \<or> start_ok ui) \<and> reaches_main_window (init_polls ui))"

text \<open>Example data: a main window, a control channel on which every call succeeds,
  variations of it with one call failing, documents, file systems and inputs.\<close>

definition mathtype_window :: window where
  "mathtype_window =
     \<lparr>window_text = ''MathType - Untitled 1'', class_name = ''EQNWINCLASS'',
      set_focus_ok = True, print_ok = True, esc_ok = True\<rparr>"

definition responsive :: unit_env where
  "responsive =
     \<lparr>copy_ok = True, clear_keys_ok = True, paste_keys_ok = True,
      pref_polls = [Inr [mathtype_window]], select_keys_ok = True, pref_menu_ok = True,
      pref_dialog = Absent, save_polls = [Inr [mathtype_window]], save_menu_ok = True,
      save_dlg_visible = True, set_edit_text_ok = True, save_click_ok = True,
      close_polls = [Inr [mathtype_window]], close_keys_ok = True,
      popup_windows = Inr [mathtype_window]\<rparr>"

definition running_app :: "(nat \<Rightarrow> unit_env) \<Rightarrow> ui_env" where
  "running_app envs =
     \<lparr>connect_ok = True, start_ok = True, init_polls = [Inr [mathtype_window]], units = envs\<rparr>"

definition math_unit :: "string \<Rightarrow> string \<Rightarrow> string" where
  "math_unit alt body = ''<math altimg='' @ [dq] @ alt @ [dq] @ ''>'' @ body @ ''</math>''"

definition save_dialog_stalls :: unit_env where
  "save_dialog_stalls = responsive\<lparr>save_dlg_visible := False\<rparr>"

definition three_lines :: string where
  "three_lines = math_unit ''a.png'' ''x'' @ [LF] @ math_unit ''b.png'' ''y'' @ [LF]
                   @ math_unit ''c.png'' ''z'' @ [LF]"

definition desktop_with :: "string \<Rightarrow> world" where
  "desktop_with txt = \<lparr>files = [''mathml.txt'' \<mapsto> Text txt], dirs = {}\<rparr>"

definition clipboard_fails :: unit_env where
  "clipboard_fails = responsive\<lparr>copy_ok := False, popup_windows := Inr []\<rparr>"

definition one_line :: string where
  "one_line = math_unit ''a.png'' ''x'' @ [LF]"

definition example_inputs :: inputs where
  "example_inputs =
     \<lparr>XML_FILE = ''doc.xml'', OUTPUT_DIR = ''eps_output'',
      makedirs_does = Created {''eps_output''},
      REPORT_FILE = ''EquationFontReport.txt'', MATHML_TXT_PATH = ''mathml.txt'',
      pyperclip_installed = True\<rparr>"

definition installed_with :: "string \<Rightarrow> world" where
  "installed_with doc =
     \<lparr>files = [''doc.xml'' \<mapsto> Text doc, MATHTYPE_PATH \<mapsto> Text ''''], dirs = {}\<rparr>"

definition one_unit_document :: string where
  "one_unit_document = ''<p>'' @ math_unit ''a.png'' ''x'' @ ''</p>''"

definition two_units_document :: string where
  "two_units_document =
     ''<p>'' @ math_unit ''a.png'' ''x'' @ ''</p><p>'' @ math_unit ''b.png'' ''y'' @ ''</p>''"

definition path_field_fails :: unit_env where
  "path_field_fails = responsive\<lparr>set_edit_text_ok := False\<rparr>"

definition save_button_fails :: unit_env where
  "save_button_fails = responsive\<lparr>save_click_ok := False\<rparr>"

definition copied_to :: "string \<Rightarrow> string \<Rightarrow> world" where
  "copied_to path doc = \<lparr>files = [path \<mapsto> Text doc], dirs = {''eps_output''}\<rparr>"


text \<open>
  The contract of \<open>dismissPopup\<close> in the words of the specification: a window is a
  popup when its lower-cased title contains a keyword; dismissal is attempted on the
  popups in the order of enumeration, and stops with the first attempt that succeeds.
\<close>

definition is_popup :: "window \<Rightarrow> bool" where
  "is_popup w = list_ex (\<lambda>keyword. sublist keyword (lower (window_text w))) popup_keywords"

definition dismissable :: "window \<Rightarrow> bool" where
  "dismissable w = (set_focus_ok w \<and> esc_ok w)"

fun attempted :: "window list \<Rightarrow> window list" where
  "attempted [] = []"
| "attempted (w # ws) =
     (if is_popup w then (if dismissable w then [w] else w # attempted ws)
      else attempted ws)"

text \<open>The titles in the \<open>Popup detected\<close> records and in the \<open>Sent ESC\<close> records
  of a log.\<close>

definition detected_titles :: "msg list \<Rightarrow> string list" where
  "detected_titles l = concat (map (\<lambda>m. case m of Popup_detected t \<Rightarrow> [t] | _ \<Rightarrow> []) l)"

definition escaped_titles :: "msg list \<Rightarrow> string list" where
  "escaped_titles l = concat (map (\<lambda>m. case m of Sent_ESC_to_popup t \<Rightarrow> [t] | _ \<Rightarrow> []) l)"

definition error_dialog :: window where
  "error_dialog =
     \<lparr>window_text = ''MathType Error'', class_name = ''#32770'',
      set_focus_ok = False, print_ok = True, esc_ok = True\<rparr>"

definition save_dialog :: window where
  "save_dialog =
     \<lparr>window_text = ''SAVE As'', class_name = ''#32770'',
      set_focus_ok = True, print_ok = False, esc_ok = True\<rparr>"

definition toolbar :: window where
  "toolbar =
     \<lparr>window_text = ''Toolbar'', class_name = ''ToolbarWindow32'',
      set_focus_ok = True, print_ok = True, esc_ok = True\<rparr>"

text \<open>Every poll made before the timeout enumerated the windows, and none of them
  was the main window.\<close>

definition never_shows :: "(error + window list) list \<Rightarrow> bool" where
  "never_shows polls =
     list_all (\<lambda>p. case p of Inl e \<Rightarrow> False | Inr ws \<Rightarrow> find is_main_window ws = None) polls"

definition no_main_window :: "(error + window list) list" where
  "no_main_window = [Inr [toolbar], Inr []]"

definition times_preference :: "string \<rightharpoonup> string" where
  "times_preference = [''Eqn1.eps'' \<mapsto> ''Times+Symbol 12'']"

definition window_missing_for_save :: unit_env where
  "window_missing_for_save = responsive\<lparr>save_polls := no_main_window\<rparr>"

definition window_missing_around_save :: unit_env where
  "window_missing_around_save =
     responsive\<lparr>pref_polls := no_main_window, close_polls := no_main_window\<rparr>"

definition window_missing_everywhere :: unit_env where
  "window_missing_everywhere =
     responsive\<lparr>pref_polls := no_main_window, save_polls := no_main_window,
                 close_polls := no_main_window\<rparr>"

definition with_report :: "file_node \<Rightarrow> world \<Rightarrow> world" where
  "with_report node w = w\<lparr>files := (files w)(''EquationFontReport.txt'' \<mapsto> node)\<rparr>"

definition example_report :: string where
  "example_report =
     ''Eqn1.eps'' @ [TAB] @ ''Times+Symbol 12'' @ [LF]
     @ ''no tab on this line'' @ [LF]
     @ ''Eqn2.eps'' @ [TAB] @ ''Euclid 10'' @ [TAB] @ ''ignored'' @ [LF]"

definition example_report_without_short_line :: string where
  "example_report_without_short_line =
     ''Eqn1.eps'' @ [TAB] @ ''Times+Symbol 12'' @ [LF]
     @ ''Eqn2.eps'' @ [TAB] @ ''Euclid 10'' @ [TAB] @ ''ignored'' @ [LF]"

definition without_document :: world where
  "without_document = \<lparr>files = [MATHTYPE_PATH \<mapsto> Text ''''], dirs = {}\<rparr>"

definition output_dir_as_input :: inputs where
  "output_dir_as_input = example_inputs\<lparr>XML_FILE := ''eps_output''\<rparr>"

text \<open>An artifact name that carries the index \<open>n\<close>, real or placeholder.\<close>

definition names_index :: "string \<Rightarrow> int \<Rightarrow> bool" where
  "names_index a n = (a = ''Eqn'' @ str_int n @ ''.eps'' \<or> a = ''Eqn'' @ str_int n @ ''_failed.eps'')"

definition three_units_document :: string where
  "three_units_document =
     ''<p>'' @ math_unit ''a.png'' ''x'' @ ''</p>'' @ [LF] @ ''<p>'' @ math_unit ''b.png'' ''y''
       @ ''</p>'' @ [LF] @ ''<p>'' @ math_unit ''c.png'' ''z'' @ ''</p>''"

definition new_directory_as_input :: inputs where
  "new_directory_as_input =
     example_inputs
       \<lparr>XML_FILE := ''newdir/'',
        OUTPUT_DIR := ''newdir'' @ [CHR 0x5C] @ ''eps_output'',
        makedirs_does := Created {''newdir'', ''newdir/'', ''newdir'' @ [CHR 0x5C] @ ''eps_output''}\<rparr>"

section \<open>Counter, artifacts and log through the steps of one unit\<close>

lemma eqn_counter_emit [simp]: "eqn_counter (emit m st) = eqn_counter st"
  by (simp add: emit_def)

lemma artifacts_emit [simp]: "artifacts (emit m st) = artifacts st"
  by (simp add: emit_def)

lemma log_emit [simp]: "log (emit m st) = log st @ [m]"
  by (simp add: emit_def)

lemma dismiss_calls_append [simp]: "dismiss_calls (a @ b) = dismiss_calls a + dismiss_calls b"
  by (simp add: dismiss_calls_def)

lemma dismiss_calls_Nil [simp]: "dismiss_calls [] = 0"
  by (simp add: dismiss_calls_def)

lemma dismiss_calls_Cons [simp]:
  "dismiss_calls (m # l) = (if is_dismiss_return m then 1 else 0) + dismiss_calls l"
  by (simp add: dismiss_calls_def)

lemma unit_starts_append [simp]: "unit_starts (a @ b) = unit_starts a + unit_starts b"
  by (simp add: unit_starts_def)

lemma unit_starts_Nil [simp]: "unit_starts [] = 0"
  by (simp add: unit_starts_def)

lemma unit_starts_Cons [simp]:
  "unit_starts (m # l) = (if is_unit_start m then 1 else 0) + unit_starts l"
  by (simp add: unit_starts_def)

lemma dismiss_loop_keeps:
  "eqn_counter (snd (dismiss_loop ws st)) = eqn_counter st
   \<and> artifacts (snd (dismiss_loop ws st)) = artifacts st
   \<and> dismiss_calls (log (snd (dismiss_loop ws st))) = dismiss_calls (log st) + 1
   \<and> unit_starts (log (snd (dismiss_loop ws st))) = unit_starts (log st)"
  by (induction ws arbitrary: st) (simp_all add: Let_def)

lemma dismiss_error_popup_keeps:
  "eqn_counter (snd (dismiss_error_popup wins st)) = eqn_counter st
   \<and> artifacts (snd (dismiss_error_popup wins st)) = artifacts st
   \<and> dismiss_calls (log (snd (dismiss_error_popup wins st))) = dismiss_calls (log st) + 1
   \<and> unit_starts (log (snd (dismiss_error_popup wins st))) = unit_starts (log st)"
  by (cases wins) (simp_all add: dismiss_error_popup_def dismiss_loop_keeps)

lemma apply_preferences_keeps:
  "apply_preferences env p st = (r, st1) \<Longrightarrow>
     eqn_counter st1 = eqn_counter st \<and> artifacts st1 = artifacts st
     \<and> dismiss_calls (log st1) = dismiss_calls (log st)
   \<and> unit_starts (log st1) = unit_starts (log st)"
  by (auto simp: apply_preferences_def split: sum.splits option.splits if_splits dialog.splits)

lemma close_current_window_keeps:
  "eqn_counter (close_current_window env st) = eqn_counter st
   \<and> artifacts (close_current_window env st) = artifacts st
   \<and> dismiss_calls (log (close_current_window env st)) = dismiss_calls (log st)
   \<and> unit_starts (log (close_current_window env st)) = unit_starts (log st)"
  by (auto simp: close_current_window_def split: sum.splits option.splits)

lemma save_as_eps_Inl:
  "save_as_eps env st = (Inl e, st1) \<Longrightarrow>
     artifacts st1 = artifacts st \<and> dismiss_calls (log st1) = dismiss_calls (log st)
   \<and> unit_starts (log st1) = unit_starts (log st)
     \<and> (eqn_counter st1 = eqn_counter st \<or> eqn_counter st1 = eqn_counter st + 1)"
  by (auto simp: save_as_eps_def Let_def split: sum.splits option.splits if_splits)

lemma save_as_eps_Inr:
  "save_as_eps env st = (Inr n, st1) \<Longrightarrow>
     n = ''Eqn'' @ str_int (eqn_counter st) @ ''.eps''
     \<and> artifacts st1 = artifacts st @ [n] \<and> eqn_counter st1 = eqn_counter st + 1
     \<and> dismiss_calls (log st1) = dismiss_calls (log st)
   \<and> unit_starts (log st1) = unit_starts (log st)"
  by (auto simp: save_as_eps_def Let_def split: sum.splits option.splits if_splits)

lemma preference_stage_keeps:
  "(case pm name of
      None \<Rightarrow> (Inr (), emit (No_preference_found name) st)
    | Some preference \<Rightarrow>
        if preference \<noteq> [] then apply_preferences env preference st
        else (Inr (), emit (No_preference_found name) st)) = (r, st1) \<Longrightarrow>
   eqn_counter st1 = eqn_counter st \<and> artifacts st1 = artifacts st
     \<and> dismiss_calls (log st1) = dismiss_calls (log st)
   \<and> unit_starts (log st1) = unit_starts (log st)"
  by (auto split: option.splits if_splits dest: apply_preferences_keeps)

lemma happy_path_Inl:
  assumes "happy_path pm env st = (Inl e, st1)"
  shows "artifacts st1 = artifacts st \<and> dismiss_calls (log st1) = dismiss_calls (log st)
   \<and> unit_starts (log st1) = unit_starts (log st)
     \<and> (eqn_counter st1 = eqn_counter st \<or> eqn_counter st1 = eqn_counter st + 1)"
proof -
  define name where "name = ''Eqn'' @ str_int (eqn_counter st) @ ''.eps''"
  define applied where "applied =
    (case pm name of
      None \<Rightarrow> (Inr (), emit (No_preference_found name) st)
    | Some preference \<Rightarrow>
        if preference \<noteq> [] then apply_preferences env preference st
        else (Inr (), emit (No_preference_found name) st))"
  obtain r sa where ap: "applied = (r, sa)" by (cases applied)
  have keep: "eqn_counter sa = eqn_counter st \<and> artifacts sa = artifacts st
     \<and> dismiss_calls (log sa) = dismiss_calls (log st)
   \<and> unit_starts (log sa) = unit_starts (log st)"
    using preference_stage_keeps[where pm=pm and name=name and st=st and env=env and r=r and ?st1.0=sa] ap unfolding applied_def by simp
  obtain r2 sb where sv: "save_as_eps env sa = (r2, sb)" by (cases "save_as_eps env sa")
  have hp: "happy_path pm env st =
     (if \<not> copy_ok env then (Inl (ControlError ''pyperclip.copy''), st)
      else (case paste_mathml_to_mathtype env of
              Inl e \<Rightarrow> (Inl e, st)
            | Inr _ \<Rightarrow>
                (case r of
                   Inl e \<Rightarrow> (Inl e, sa)
                 | Inr _ \<Rightarrow>
                     (case r2 of
                        Inl e \<Rightarrow> (Inl e, sb)
                      | Inr _ \<Rightarrow> (Inr (), close_current_window env sb)))))"
    unfolding happy_path_def Let_def name_def[symmetric] applied_def[symmetric] ap
    by (simp add: sv split: sum.splits)
  show ?thesis
  proof (cases r2)
    case (Inl e2)
    with sv save_as_eps_Inl[of env sa e2 sb] keep assms show ?thesis
      unfolding hp by (auto split: if_splits sum.splits)
  next
    case (Inr n)
    with keep assms show ?thesis
      unfolding hp by (auto split: if_splits sum.splits)
  qed
qed

lemma happy_path_Inr:
  assumes "happy_path pm env st = (Inr u, st1)"
  shows "artifacts st1 = artifacts st @ [''Eqn'' @ str_int (eqn_counter st) @ ''.eps'']
     \<and> dismiss_calls (log st1) = dismiss_calls (log st)
   \<and> unit_starts (log st1) = unit_starts (log st)
     \<and> eqn_counter st1 = eqn_counter st + 1"
proof -
  define name where "name = ''Eqn'' @ str_int (eqn_counter st) @ ''.eps''"
  define applied where "applied =
    (case pm name of
      None \<Rightarrow> (Inr (), emit (No_preference_found name) st)
    | Some preference \<Rightarrow>
        if preference \<noteq> [] then apply_preferences env preference st
        else (Inr (), emit (No_preference_found name) st))"
  obtain r sa where ap: "applied = (r, sa)" by (cases applied)
  have keep: "eqn_counter sa = eqn_counter st \<and> artifacts sa = artifacts st
     \<and> dismiss_calls (log sa) = dismiss_calls (log st)
   \<and> unit_starts (log sa) = unit_starts (log st)"
    using preference_stage_keeps[where pm=pm and name=name and st=st and env=env and r=r and ?st1.0=sa] ap unfolding applied_def by simp
  obtain r2 sb where sv: "save_as_eps env sa = (r2, sb)" by (cases "save_as_eps env sa")
  have hp: "happy_path pm env st =
     (if \<not> copy_ok env then (Inl (ControlError ''pyperclip.copy''), st)
      else (case paste_mathml_to_mathtype env of
              Inl e \<Rightarrow> (Inl e, st)
            | Inr _ \<Rightarrow>
                (case r of
                   Inl e \<Rightarrow> (Inl e, sa)
                 | Inr _ \<Rightarrow>
                     (case r2 of
                        Inl e \<Rightarrow> (Inl e, sb)
                      | Inr _ \<Rightarrow> (Inr (), close_current_window env sb)))))"
    unfolding happy_path_def Let_def name_def[symmetric] applied_def[symmetric] ap
    by (simp add: sv split: sum.splits)
  show ?thesis
  proof (cases r2)
    case (Inl e2)
    with assms show ?thesis
      unfolding hp by (auto split: if_splits sum.splits)
  next
    case (Inr n)
    with sv save_as_eps_Inr[of env sa n sb] keep assms close_current_window_keeps[of env sb]
    show ?thesis
      unfolding hp by (auto split: if_splits sum.splits)
  qed
qed

lemma recover_effect:
  "artifacts (recover i e env st) = artifacts st @ [''Eqn'' @ str_int (eqn_counter st) @ ''_failed.eps'']
   \<and> eqn_counter (recover i e env st) = eqn_counter st + 1
   \<and> dismiss_calls (log (recover i e env st)) = dismiss_calls (log st) + 1
   \<and> unit_starts (log (recover i e env st)) = unit_starts (log st)"
proof -
  obtain d s2 where d: "dismiss_error_popup (popup_windows env) (emit (Error_processing i e) st) = (d, s2)"
    by (cases "dismiss_error_popup (popup_windows env) (emit (Error_processing i e) st)")
  with dismiss_error_popup_keeps[of "popup_windows env" "emit (Error_processing i e) st"]
  show ?thesis
    by (simp add: recover_def Let_def)
qed

lemma happy_path_unfold:
  assumes "(case pm (''Eqn'' @ str_int (eqn_counter st) @ ''.eps'') of
      None \<Rightarrow> (Inr (), emit (No_preference_found (''Eqn'' @ str_int (eqn_counter st) @ ''.eps'')) st)
    | Some preference \<Rightarrow>
        if preference \<noteq> [] then apply_preferences env preference st
        else (Inr (), emit (No_preference_found (''Eqn'' @ str_int (eqn_counter st) @ ''.eps'')) st))
     = (r, sa)"
    and "save_as_eps env sa = (r2, sb)"
  shows "happy_path pm env st =
     (if \<not> copy_ok env then (Inl (ControlError ''pyperclip.copy''), st)
      else (case paste_mathml_to_mathtype env of
              Inl e \<Rightarrow> (Inl e, st)
            | Inr _ \<Rightarrow>
                (case r of
                   Inl e \<Rightarrow> (Inl e, sa)
                 | Inr _ \<Rightarrow>
                     (case r2 of
                        Inl e \<Rightarrow> (Inl e, sb)
                      | Inr _ \<Rightarrow> (Inr (), close_current_window env sb)))))"
  unfolding happy_path_def Let_def assms(1)
  by (simp add: assms(2) split: sum.splits)

lemma preference_stage_succeeds:
  assumes "reaches_main_window (pref_polls env)" "select_keys_ok env"
  shows "\<exists>sa. (case pm name of
      None \<Rightarrow> (Inr (), emit (No_preference_found name) st)
    | Some preference \<Rightarrow>
        if preference \<noteq> [] then apply_preferences env preference st
        else (Inr (), emit (No_preference_found name) st)) = (Inr (), sa)"
  using assms
  by (auto simp: reaches_main_window_def apply_preferences_def
      split: option.splits sum.splits dialog.splits)

lemma save_as_eps_succeeds:
  assumes "reaches_main_window (save_polls env)" "save_menu_ok env" "save_dlg_visible env"
    "set_edit_text_ok env" "save_click_ok env"
  shows "\<exists>n sb. save_as_eps env sa = (Inr n, sb)"
  using assms
  by (auto simp: reaches_main_window_def save_as_eps_def Let_def split: option.splits sum.splits)

lemma save_as_eps_times_out:
  assumes "reaches_main_window (save_polls env)" "save_menu_ok env" "\<not> save_dlg_visible env"
  shows "save_as_eps env sa = (Inl TimeoutError, sa)"
  using assms
  by (auto simp: reaches_main_window_def save_as_eps_def Let_def split: option.splits sum.splits)

lemma happy_path_succeeds:
  assumes "all_steps_succeed env"
  shows "\<exists>st1. happy_path pm env st = (Inr (), st1)"
proof -
  from assms have a: "copy_ok env" "clear_keys_ok env" "paste_keys_ok env"
    "reaches_main_window (pref_polls env)" "select_keys_ok env"
    "reaches_main_window (save_polls env)" "save_menu_ok env" "save_dlg_visible env"
    "set_edit_text_ok env" "save_click_ok env"
    by (simp_all add: all_steps_succeed_def)
  from preference_stage_succeeds[OF a(4,5)] obtain sa where
    p: "(case pm (''Eqn'' @ str_int (eqn_counter st) @ ''.eps'') of
      None \<Rightarrow> (Inr (), emit (No_preference_found (''Eqn'' @ str_int (eqn_counter st) @ ''.eps'')) st)
    | Some preference \<Rightarrow>
        if preference \<noteq> [] then apply_preferences env preference st
        else (Inr (), emit (No_preference_found (''Eqn'' @ str_int (eqn_counter st) @ ''.eps'')) st))
     = (Inr (), sa)" by blast
  from save_as_eps_succeeds[OF a(6-10)] obtain n sb where s: "save_as_eps env sa = (Inr n, sb)"
    by blast
  show ?thesis
    unfolding happy_path_unfold[where pm=pm and st=st and env=env, OF p s] using a(1-3)
    by (simp add: paste_mathml_to_mathtype_def)
qed

lemma happy_path_times_out:
  assumes "save_dialog_times_out env"
  shows "\<exists>st1. happy_path pm env st = (Inl TimeoutError, st1) \<and> eqn_counter st1 = eqn_counter st"
proof -
  from assms have a: "copy_ok env" "clear_keys_ok env" "paste_keys_ok env"
    "reaches_main_window (pref_polls env)" "select_keys_ok env"
    "reaches_main_window (save_polls env)" "save_menu_ok env" "\<not> save_dlg_visible env"
    by (simp_all add: save_dialog_times_out_def all_steps_succeed_def)
  from preference_stage_succeeds[OF a(4,5)] obtain sa where
    p: "(case pm (''Eqn'' @ str_int (eqn_counter st) @ ''.eps'') of
      None \<Rightarrow> (Inr (), emit (No_preference_found (''Eqn'' @ str_int (eqn_counter st) @ ''.eps'')) st)
    | Some preference \<Rightarrow>
        if preference \<noteq> [] then apply_preferences env preference st
        else (Inr (), emit (No_preference_found (''Eqn'' @ str_int (eqn_counter st) @ ''.eps'')) st))
     = (Inr (), sa)" by blast
  from preference_stage_keeps[where pm=pm and st=st and env=env and name="''Eqn'' @ str_int (eqn_counter st) @ ''.eps''", OF p] have k: "eqn_counter sa = eqn_counter st" by simp
  note s = save_as_eps_times_out[OF a(6-8), of sa]
  show ?thesis
    unfolding happy_path_unfold[where pm=pm and st=st and env=env, OF p s] using a(1-3) k
    by (simp add: paste_mathml_to_mathtype_def)
qed

lemma process_unit_succeeds:
  assumes "all_steps_succeed env"
  shows "artifacts (process_unit pm i env st)
           = artifacts st @ [''Eqn'' @ str_int (eqn_counter st) @ ''.eps'']
       \<and> eqn_counter (process_unit pm i env st) = eqn_counter st + 1"
proof -
  from happy_path_succeeds[OF assms] obtain st1 where
    h: "happy_path pm env (emit (Processing_equation i) st) = (Inr (), st1)" by blast
  from happy_path_Inr[OF h] show ?thesis
    by (simp add: process_unit_def h)
qed

lemma process_unit_times_out:
  assumes "save_dialog_times_out env"
  shows "artifacts (process_unit pm i env st)
           = artifacts st @ [''Eqn'' @ str_int (eqn_counter st) @ ''_failed.eps'']
       \<and> eqn_counter (process_unit pm i env st) = eqn_counter st + 1"
proof -
  from happy_path_times_out[OF assms] obtain st1 where
    h: "happy_path pm env (emit (Processing_equation i) st) = (Inl TimeoutError, st1)"
    and c: "eqn_counter st1 = eqn_counter st" by fastforce
  from happy_path_Inl[OF h] recover_effect[of i TimeoutError env st1] c show ?thesis
    by (simp add: process_unit_def h)
qed

section \<open>Runs\<close>

lemma str_int_small: "str_int 1 = ''1''" "str_int 2 = ''2''" "str_int 3 = ''3''"
  by code_simp+

lemma startup_succeeds_run:
  assumes "startup_succeeds ui" "read_text w txt_path = Inr content"
  shows "process_mathml_blocks_from_file w txt_path pm ui st
           = (Inr (), emit Done_processing
                (process_lines pm (units ui) 1 (readlines content)
                   (emit (if connect_ok ui then Connected_to_running else Started_new_instance) st)))"
  using assms
  by (auto simp: startup_succeeds_def reaches_main_window_def process_mathml_blocks_from_file_def
        connect_or_start_mathtype_def split: sum.splits option.splits)

text \<open>
  Claim C3. A run over exactly three units in which the save dialog of the second unit
  never becomes visible, every other call succeeding, leaves the artifacts
  \<open>Eqn1.eps\<close>, \<open>Eqn2_failed.eps\<close>, \<open>Eqn3.eps\<close> in this order and ends with the
  counter at 4. The timeout is raised before \<open>save_as_eps\<close> advances the counter, so
  the placeholder takes the index of the unit.
\<close>

theorem three_units_second_save_times_out:
  assumes "startup_succeeds ui"
    and "read_text w txt_path = Inr content"
    and "readlines content = [l1, l2, l3]"
    and "strip l1 \<noteq> []" "strip l2 \<noteq> []" "strip l3 \<noteq> []"
    and "all_steps_succeed (units ui 1)"
    and "save_dialog_times_out (units ui 2)"
    and "all_steps_succeed (units ui 3)"
  shows "fst (process_mathml_blocks_from_file w txt_path pm ui initial_state) = Inr ()
       \<and> artifacts (snd (process_mathml_blocks_from_file w txt_path pm ui initial_state))
           = [''Eqn1.eps'', ''Eqn2_failed.eps'', ''Eqn3.eps'']
       \<and> eqn_counter (snd (process_mathml_blocks_from_file w txt_path pm ui initial_state)) = 4"
proof -
  define s0 where "s0 = emit (if connect_ok ui then Connected_to_running else Started_new_instance) initial_state"
  define s1 where "s1 = process_unit pm 1 (units ui 1) s0"
  define s2 where "s2 = process_unit pm 2 (units ui 2) s1"
  define s3 where "s3 = process_unit pm 3 (units ui 3) s2"
  have i0: "artifacts s0 = [] \<and> eqn_counter s0 = 1"
    by (simp add: s0_def initial_state_def)
  have i1: "artifacts s1 = [''Eqn1.eps''] \<and> eqn_counter s1 = 2"
    using process_unit_succeeds[OF assms(7), of pm 1 s0] i0
    by (simp add: s1_def str_int_small)
  have i2: "artifacts s2 = [''Eqn1.eps'', ''Eqn2_failed.eps''] \<and> eqn_counter s2 = 3"
    using process_unit_times_out[OF assms(8), of pm 2 s1] i1
    by (simp add: s2_def str_int_small)
  have i3: "artifacts s3 = [''Eqn1.eps'', ''Eqn2_failed.eps'', ''Eqn3.eps''] \<and> eqn_counter s3 = 4"
    using process_unit_succeeds[OF assms(9), of pm 3 s2] i2
    by (simp add: s3_def str_int_small)
  have "process_lines pm (units ui) 1 [l1, l2, l3] s0 = s3"
    using assms(4-6)
    by (simp add: s3_def s2_def s1_def Let_def eval_nat_numeral)
  with startup_succeeds_run[OF assms(1,2), of pm initial_state] assms(3) i3 show ?thesis
    by (simp add: s0_def)
qed

theorem three_units_second_save_times_out_witness:
  "fst (process_mathml_blocks_from_file (desktop_with three_lines) ''mathml.txt'' Map.empty
          (running_app (\<lambda>i. if i = 2 then save_dialog_stalls else responsive)) initial_state) = Inr ()
   \<and> artifacts (snd (process_mathml_blocks_from_file (desktop_with three_lines) ''mathml.txt'' Map.empty
          (running_app (\<lambda>i. if i = 2 then save_dialog_stalls else responsive)) initial_state))
       = [''Eqn1.eps'', ''Eqn2_failed.eps'', ''Eqn3.eps'']
   \<and> eqn_counter (snd (process_mathml_blocks_from_file (desktop_with three_lines) ''mathml.txt'' Map.empty
          (running_app (\<lambda>i. if i = 2 then save_dialog_stalls else responsive)) initial_state)) = 4"
proof -
  let ?ui = "running_app (\<lambda>i. if i = 2 then save_dialog_stalls else responsive)"
  have h1: "startup_succeeds ?ui" by code_simp
  have h2: "read_text (desktop_with three_lines) ''mathml.txt'' = Inr (universal_newlines three_lines)"
    by (simp add: read_text_def desktop_with_def)
  have h3: "readlines (universal_newlines three_lines)
              = [math_unit ''a.png'' ''x'' @ [LF], math_unit ''b.png'' ''y'' @ [LF],
                 math_unit ''c.png'' ''z'' @ [LF]]"
    by code_simp
  have h4: "strip (math_unit ''a.png'' ''x'' @ [LF]) \<noteq> []" by code_simp
  have h5: "strip (math_unit ''b.png'' ''y'' @ [LF]) \<noteq> []" by code_simp
  have h6: "strip (math_unit ''c.png'' ''z'' @ [LF]) \<noteq> []" by code_simp
  have h7: "all_steps_succeed (units ?ui 1)" by code_simp
  have h8: "save_dialog_times_out (units ?ui 2)" by code_simp
  have h9: "all_steps_succeed (units ?ui 3)" by code_simp
  show ?thesis
    by (rule three_units_second_save_times_out[OF h1 h2 h3 h4 h5 h6 h7 h8 h9])
qed

lemma run_completes_once_started:
  assumes "startup_succeeds ui" "read_text w txt_path = Inr content"
  shows "fst (process_mathml_blocks_from_file w txt_path pm ui st) = Inr ()"
  by (simp add: startup_succeeds_run[OF assms])

text \<open>
  What the handler does for a unit whose \<open>try\<close> body raises, whatever the step and
  the exception: \<open>dismiss_error_popup\<close> is called once, a
  placeholder is written under the value the counter has when the exception is caught,
  the counter is advanced by one, the unit is not started a second time, and the loop
  goes on with the next line. The counter at the catch is the unit's own index, or one
  more when \<open>save_as_eps\<close> had already advanced it. No exception of a unit leaves
  \<open>process_mathml_blocks_from_file\<close>: once the application is reached and the
  intermediate file is read, the call returns normally whatever the units do.
\<close>

lemma unit_failure_is_isolated:
  assumes "happy_path pm (envs i) (emit (Processing_equation i) st) = (Inl e, st1)"
    and "strip line \<noteq> []"
  shows "process_lines pm envs i (line # ls) st
           = process_lines pm envs (Suc i) ls (process_unit pm i (envs i) st)
       \<and> dismiss_calls (log (process_unit pm i (envs i) st)) = dismiss_calls (log st) + 1
       \<and> unit_starts (log (process_unit pm i (envs i) st)) = unit_starts (log st) + 1
       \<and> artifacts (process_unit pm i (envs i) st)
           = artifacts st @ [''Eqn'' @ str_int (eqn_counter st1) @ ''_failed.eps'']
       \<and> eqn_counter (process_unit pm i (envs i) st) = eqn_counter st1 + 1
       \<and> (eqn_counter st1 = eqn_counter st \<or> eqn_counter st1 = eqn_counter st + 1)
       \<and> (\<forall>ui w txt_path content s0.
             startup_succeeds ui \<longrightarrow> read_text w txt_path = Inr content \<longrightarrow>
             fst (process_mathml_blocks_from_file w txt_path pm ui s0) = Inr ())"
proof -
  have u: "process_unit pm i (envs i) st = recover i e (envs i) st1"
    by (simp add: process_unit_def assms(1))
  from happy_path_Inl[OF assms(1)] have
    h: "artifacts st1 = artifacts st"
       "dismiss_calls (log st1) = dismiss_calls (log st)"
       "unit_starts (log st1) = unit_starts (log st) + 1"
       "eqn_counter st1 = eqn_counter st \<or> eqn_counter st1 = eqn_counter st + 1"
    by simp_all
  note r = recover_effect[of i e "envs i" st1]
  have 1: "process_lines pm envs i (line # ls) st
           = process_lines pm envs (Suc i) ls (process_unit pm i (envs i) st)"
    using assms(2) by (simp add: Let_def)
  show ?thesis
    using 1 h r run_completes_once_started unfolding u by simp
qed

lemma unit_failure_is_isolated_example:
  "process_lines Map.empty (\<lambda>i. clipboard_fails) 1 [one_line] initial_state
     = process_unit Map.empty 1 clipboard_fails initial_state
   \<and> dismiss_calls (log (process_unit Map.empty 1 clipboard_fails initial_state)) = 1
   \<and> unit_starts (log (process_unit Map.empty 1 clipboard_fails initial_state)) = 1
   \<and> artifacts (process_unit Map.empty 1 clipboard_fails initial_state) = [''Eqn1_failed.eps'']
   \<and> eqn_counter (process_unit Map.empty 1 clipboard_fails initial_state) = 2
   \<and> fst (process_mathml_blocks_from_file (desktop_with one_line) ''mathml.txt'' Map.empty
            (running_app (\<lambda>i. clipboard_fails)) initial_state) = Inr ()"
proof -
  have h1: "happy_path Map.empty ((\<lambda>i. clipboard_fails) (1::nat))
              (emit (Processing_equation 1) initial_state)
            = (Inl (ControlError ''pyperclip.copy''), emit (Processing_equation 1) initial_state)"
    by (simp add: happy_path_def clipboard_fails_def)
  have h2: "strip one_line \<noteq> []" by code_simp
  have h3: "startup_succeeds (running_app (\<lambda>i. clipboard_fails))" by code_simp
  have h4: "read_text (desktop_with one_line) ''mathml.txt'' = Inr (universal_newlines one_line)"
    by (simp add: read_text_def desktop_with_def)
  from unit_failure_is_isolated[OF h1 h2, of "[]"] h3 h4 show ?thesis
    by (simp add: initial_state_def str_int_small)
qed

subsection \<open>When the calls after the increment do not raise\<close>

text \<open>
  \<open>save_as_eps\<close> advances the counter before it types the path and clicks Save. As
  long as these two calls do not raise, a unit uses exactly one index, and a run uses
  consecutive indices, one per unit, whatever else fails.
\<close>

lemma save_as_eps_Inl_early:
  assumes "set_edit_text_ok env" "save_click_ok env" "save_as_eps env st = (Inl e, st1)"
  shows "st1 = st"
  using assms
  by (auto simp: save_as_eps_def Let_def split: sum.splits option.splits if_splits)

lemma happy_path_Inl_early:
  assumes "set_edit_text_ok env" "save_click_ok env" "happy_path pm env st = (Inl e, st1)"
  shows "eqn_counter st1 = eqn_counter st"
proof -
  define name where "name = ''Eqn'' @ str_int (eqn_counter st) @ ''.eps''"
  define applied where "applied =
    (case pm name of
      None \<Rightarrow> (Inr (), emit (No_preference_found name) st)
    | Some preference \<Rightarrow>
        if preference \<noteq> [] then apply_preferences env preference st
        else (Inr (), emit (No_preference_found name) st))"
  obtain r sa where ap: "applied = (r, sa)" by (cases applied)
  have keep: "eqn_counter sa = eqn_counter st"
    using preference_stage_keeps[where pm=pm and name=name and st=st and env=env and r=r and ?st1.0=sa]
      ap unfolding applied_def by simp
  obtain r2 sb where sv: "save_as_eps env sa = (r2, sb)" by (cases "save_as_eps env sa")
  note hp = happy_path_unfold[where pm=pm and st=st and env=env,
      OF ap[unfolded applied_def name_def] sv]
  show ?thesis
  proof (cases r2)
    case (Inl e2)
    with sv save_as_eps_Inl_early[OF assms(1,2), of sa e2 sb] keep assms(3) show ?thesis
      unfolding hp by (auto split: if_splits sum.splits)
  next
    case (Inr n)
    with keep assms(3) show ?thesis
      unfolding hp by (auto split: if_splits sum.splits)
  qed
qed

lemma process_unit_one_index:
  assumes "set_edit_text_ok env" "save_click_ok env"
  shows "eqn_counter (process_unit pm i env st) = eqn_counter st + 1
       \<and> (\<exists>a. artifacts (process_unit pm i env st) = artifacts st @ [a]
              \<and> names_index a (eqn_counter st))"
proof -
  obtain r st1 where h: "happy_path pm env (emit (Processing_equation i) st) = (r, st1)"
    by (cases "happy_path pm env (emit (Processing_equation i) st)")
  show ?thesis
  proof (cases r)
    case (Inr u)
    with h happy_path_Inr[of pm env "emit (Processing_equation i) st" u st1] show ?thesis
      by (simp add: process_unit_def names_index_def)
  next
    case (Inl e)
    with h happy_path_Inl_early[OF assms, of pm "emit (Processing_equation i) st" e st1]
      happy_path_Inl[of pm env "emit (Processing_equation i) st" e st1]
      recover_effect[of i e env st1]
    show ?thesis
      by (simp add: process_unit_def names_index_def)
  qed
qed

lemma process_lines_consecutive_indices:
  assumes "\<And>j. set_edit_text_ok (envs j) \<and> save_click_ok (envs j)"
  shows "eqn_counter (process_lines pm envs i ls st)
           = eqn_counter st + int (length (filter (\<lambda>l. strip l \<noteq> []) ls))
       \<and> (\<exists>new. artifacts (process_lines pm envs i ls st) = artifacts st @ new
              \<and> list_all2 names_index new
                   [eqn_counter st ..
                    eqn_counter st + int (length (filter (\<lambda>l. strip l \<noteq> []) ls)) - 1])"
proof (induction ls arbitrary: i st)
  case Nil
  show ?case by simp
next
  case (Cons l ls)
  let ?k = "length (filter (\<lambda>l. strip l \<noteq> []) ls)"
  show ?case
  proof (cases "strip l = []")
    case True
    with Cons.IH[of "Suc i" st] show ?thesis by (simp add: Let_def)
  next
    case False
    let ?st' = "process_unit pm i (envs i) st"
    from assms have ok: "set_edit_text_ok (envs i)" "save_click_ok (envs i)" by simp_all
    from process_unit_one_index[OF ok, of pm i st] obtain a where
      c: "eqn_counter ?st' = eqn_counter st + 1"
      and a: "artifacts ?st' = artifacts st @ [a]" "names_index a (eqn_counter st)"
      by blast
    from Cons.IH[of "Suc i" ?st'] obtain new where
      c': "eqn_counter (process_lines pm envs (Suc i) ls ?st') = eqn_counter ?st' + int ?k"
      and n: "artifacts (process_lines pm envs (Suc i) ls ?st') = artifacts ?st' @ new"
        "list_all2 names_index new [eqn_counter ?st' .. eqn_counter ?st' + int ?k - 1]"
      by blast
    have e: "process_lines pm envs i (l # ls) st = process_lines pm envs (Suc i) ls ?st'"
      using False by (simp add: Let_def)
    have u: "[eqn_counter st .. eqn_counter st + int (Suc ?k) - 1]
               = eqn_counter st # [eqn_counter st + 1 .. eqn_counter st + 1 + int ?k - 1]"
      by (subst upto_rec1) simp_all
    have "artifacts (process_lines pm envs i (l # ls) st) = artifacts st @ (a # new)
        \<and> list_all2 names_index (a # new)
             [eqn_counter st .. eqn_counter st + int (Suc ?k) - 1]"
      unfolding e u using n a c by simp
    moreover have "eqn_counter (process_lines pm envs i (l # ls) st)
                     = eqn_counter st + int (Suc ?k)"
      unfolding e using c c' by simp
    ultimately show ?thesis using False by auto
  qed
qed

section \<open>Whole runs from the entry point\<close>

lemma main_runs_to_the_end:
  assumes "makedirs_does inp = Created new"
    and "pyperclip_installed inp"
    and "path_exists (w0\<lparr>dirs := dirs w0 \<union> new\<rparr>) (XML_FILE inp)"
    and "path_exists (w0\<lparr>dirs := dirs w0 \<union> new\<rparr>) MATHTYPE_PATH"
    and "extract_mathml_blocks (w0\<lparr>dirs := dirs w0 \<union> new\<rparr>) (XML_FILE inp)
           = Inr blocks"
    and "blocks \<noteq> []"
    and "write_mathml_to_file blocks (MATHML_TXT_PATH inp)
           (w0\<lparr>dirs := dirs w0 \<union> new\<rparr>)
           (emit (Found_math_blocks (length blocks)) initial_state) = (w1, st1)"
    and "read_eps_preferences w1 (REPORT_FILE inp) st1 = (Inr eps_pref_map, st2)"
    and "process_mathml_blocks_from_file w1 (MATHML_TXT_PATH inp) eps_pref_map ui st2
           = (Inr (), st3)"
  shows "main inp ui w0
           = \<lparr>outcome = Finished, printed = [], final_world = w1, final_state = st3\<rparr>"
  using assms by (simp add: main_def Let_def)

text \<open>A run on a machine where MathType is installed and running, the document is in
  place and there is no preference report.\<close>

lemma main_on_installed:
  assumes "extract_mathml_blocks (installed_with doc) ''doc.xml'' = Inr blocks"
    and "blocks \<noteq> []"
  shows "outcome (main example_inputs (running_app envs) (installed_with doc)) = Finished
       \<and> final_state (main example_inputs (running_app envs) (installed_with doc))
           = emit Done_processing
               (process_lines Map.empty envs 1
                  (readlines (universal_newlines
                     (concat (map (\<lambda>b. normalize_block (fst b)) blocks))))
                  (emit Connected_to_running
                     (emit (Preference_report_not_found ''EquationFontReport.txt'')
                        (emit (Saved_all_blocks ''mathml.txt'')
                           (emit (Found_math_blocks (length blocks)) initial_state)))))"
proof -
  let ?start = "installed_with doc"
  let ?inp = example_inputs
  let ?ui = "running_app envs"
  let ?made = "?start\<lparr>dirs := dirs ?start \<union> {''eps_output''}\<rparr>"
  let ?txt = "concat (map (\<lambda>b. normalize_block (fst b)) blocks)"
  define w1 where "w1 = ?made\<lparr>files := (files ?made)(''mathml.txt'' \<mapsto> Text ?txt)\<rparr>"
  define st1 where
    "st1 = emit (Saved_all_blocks ''mathml.txt'') (emit (Found_math_blocks (length blocks)) initial_state)"
  define st2 where "st2 = emit (Preference_report_not_found ''EquationFontReport.txt'') st1"
  define st3 where "st3 = emit Done_processing
     (process_lines Map.empty envs 1 (readlines (universal_newlines ?txt))
        (emit Connected_to_running st2))"
  have a1: "makedirs_does ?inp = Created {''eps_output''}"
    by (simp add: example_inputs_def)
  have a2: "pyperclip_installed ?inp" by (simp add: example_inputs_def)
  have a3: "path_exists ?made (XML_FILE ?inp)"
    by (simp add: installed_with_def example_inputs_def path_exists_def MATHTYPE_PATH_def)
  have a4: "path_exists ?made MATHTYPE_PATH"
    by (simp add: installed_with_def example_inputs_def path_exists_def)
  from assms(1) have a5: "extract_mathml_blocks ?made (XML_FILE ?inp) = Inr blocks"
    by (simp add: extract_mathml_blocks_def read_text_def example_inputs_def installed_with_def
          MATHTYPE_PATH_def)
  have a7: "write_mathml_to_file blocks (MATHML_TXT_PATH ?inp) ?made
              (emit (Found_math_blocks (length blocks)) initial_state) = (w1, st1)"
    by (simp add: write_mathml_to_file_def w1_def st1_def example_inputs_def)
  have a8: "read_eps_preferences w1 (REPORT_FILE ?inp) st1 = (Inr Map.empty, st2)"
    by (simp add: read_eps_preferences_def path_exists_def w1_def installed_with_def
          example_inputs_def MATHTYPE_PATH_def st2_def)
  have r: "read_text w1 ''mathml.txt'' = Inr (universal_newlines ?txt)"
    by (simp add: read_text_def w1_def)
  have s: "startup_succeeds ?ui" by code_simp
  have a9: "process_mathml_blocks_from_file w1 (MATHML_TXT_PATH ?inp) Map.empty ?ui st2
              = (Inr (), st3)"
    using startup_succeeds_run[OF s r, of Map.empty st2]
    by (simp add: st3_def example_inputs_def running_app_def)
  have "main ?inp ?ui ?start
          = \<lparr>outcome = Finished, printed = [], final_world = w1, final_state = st3\<rparr>"
    by (rule main_runs_to_the_end[OF a1 a2 a3 a4 a5 assms(2) a7 a8 a9])
  then show ?thesis by (simp add: st3_def st2_def st1_def)
qed

text \<open>
  Claim C1 (fails on the code). A document of two units, the path field of the save
  dialog raising for the first one: \<open>save_as_eps\<close> has already advanced the counter when
  \<open>set_edit_text\<close> raises, so the handler names the placeholder after the next index
  and advances the counter again. No artifact has index 1, and index 3 is used although
  only two units were processed.
\<close>

theorem late_save_failure_leaves_gap:
  "outcome (main example_inputs
        (running_app (\<lambda>i. if i = 1 then path_field_fails else responsive))
        (installed_with two_units_document)) = Finished
   \<and> artifacts (final_state (main example_inputs
        (running_app (\<lambda>i. if i = 1 then path_field_fails else responsive))
        (installed_with two_units_document))) = [''Eqn2_failed.eps'', ''Eqn3.eps'']"
proof -
  have e: "extract_mathml_blocks (installed_with two_units_document) ''doc.xml''
     = Inr [(math_unit ''a.png'' ''x'', ''a.png''), (math_unit ''b.png'' ''y'', ''b.png'')]"
    by code_simp
  have "artifacts (final_state (main example_inputs
        (running_app (\<lambda>i. if i = 1 then path_field_fails else responsive))
        (installed_with two_units_document))) = [''Eqn2_failed.eps'', ''Eqn3.eps'']"
    unfolding main_on_installed[OF e, simplified, THEN conjunct2] by code_simp
  with main_on_installed[OF e, simplified, THEN conjunct1] show ?thesis by simp
qed

text \<open>
  Claim C2 (fails on the code). A document of one unit, the click on the Save button
  raising: the counter starts at 1 and ends at 3, advanced once by \<open>save_as_eps\<close> and
  once more by the handler, for a single unit.
\<close>

theorem late_save_failure_advances_twice:
  "eqn_counter initial_state = 1
   \<and> outcome (main example_inputs (running_app (\<lambda>i. save_button_fails))
        (installed_with one_unit_document)) = Finished
   \<and> eqn_counter (final_state (main example_inputs (running_app (\<lambda>i. save_button_fails))
        (installed_with one_unit_document))) = 3"
proof -
  have e: "extract_mathml_blocks (installed_with one_unit_document) ''doc.xml''
     = Inr [(math_unit ''a.png'' ''x'', ''a.png'')]"
    by code_simp
  have "eqn_counter (final_state (main example_inputs (running_app (\<lambda>i. save_button_fails))
        (installed_with one_unit_document))) = 3"
    unfolding main_on_installed[OF e, simplified, THEN conjunct2] by code_simp
  with main_on_installed[OF e, simplified, THEN conjunct1] show ?thesis
    by (simp add: initial_state_def)
qed

text \<open>
  Claim C4 (fails on the code). A document of one unit, the path field of the save
  dialog raising. The exception is caught, \<open>dismiss_error_popup\<close> is called once and
  the run goes to its end, but the placeholder written for the unit, the first of the
  run, is \<open>Eqn2_failed.eps\<close>: \<open>save_as_eps\<close> had advanced the counter before
  \<open>set_edit_text\<close> raised, and the handler names the placeholder after the counter as
  it finds it. No artifact carries the index of the unit.
\<close>

theorem late_save_failure_misnames_placeholder:
  "outcome (main example_inputs (running_app (\<lambda>i. path_field_fails))
        (installed_with one_unit_document)) = Finished
   \<and> artifacts (final_state (main example_inputs (running_app (\<lambda>i. path_field_fails))
        (installed_with one_unit_document))) = [''Eqn2_failed.eps'']
   \<and> dismiss_calls (log (final_state (main example_inputs (running_app (\<lambda>i. path_field_fails))
        (installed_with one_unit_document)))) = 1"
proof -
  have e: "extract_mathml_blocks (installed_with one_unit_document) ''doc.xml''
     = Inr [(math_unit ''a.png'' ''x'', ''a.png'')]"
    by code_simp
  have "artifacts (final_state (main example_inputs (running_app (\<lambda>i. path_field_fails))
        (installed_with one_unit_document))) = [''Eqn2_failed.eps'']"
    unfolding main_on_installed[OF e, simplified, THEN conjunct2] by code_simp
  moreover have "dismiss_calls (log (final_state (main example_inputs
        (running_app (\<lambda>i. path_field_fails)) (installed_with one_unit_document)))) = 1"
    unfolding main_on_installed[OF e, simplified, THEN conjunct2] by code_simp
  ultimately show ?thesis
    using main_on_installed[OF e, simplified, THEN conjunct1] by simp
qed

section \<open>Properties of the extractor\<close>

text \<open>
  Claim C5. Extraction reads the document and nothing else: two runs that find the
  same text, in whatever file system, under whatever path and with whatever state of
  the rest of the program, both succeed and return the same list, so the same number
  of units, in the same order, each with the same markup and the same alternate-image
  reference.
\<close>

theorem extraction_is_deterministic:
  assumes "files w1 p1 = Some (Text doc)" and "files w2 p2 = Some (Text doc)"
  shows "extract_mathml_blocks w1 p1 = extract_mathml_blocks w2 p2
       \<and> (\<exists>blocks. extract_mathml_blocks w1 p1 = Inr blocks)"
  using assms by (simp add: extract_mathml_blocks_def read_text_def)

theorem extraction_is_deterministic_witness:
  "extract_mathml_blocks (installed_with two_units_document) ''doc.xml''
     = extract_mathml_blocks (copied_to ''copy.xml'' two_units_document) ''copy.xml''
   \<and> (\<exists>blocks. extract_mathml_blocks (installed_with two_units_document) ''doc.xml'' = Inr blocks)"
proof -
  have h1: "files (installed_with two_units_document) ''doc.xml'' = Some (Text two_units_document)"
    by (simp add: installed_with_def MATHTYPE_PATH_def)
  have h2: "files (copied_to ''copy.xml'' two_units_document) ''copy.xml''
              = Some (Text two_units_document)"
    by (simp add: copied_to_def)
  show ?thesis by (rule extraction_is_deterministic[OF h1 h2])
qed

lemma findall_member:
  "(alt, content) \<in> set (findall s) \<Longrightarrow>
     \<exists>pre a1 a2 post.
        s = pre @ ''<math'' @ a1 @ ''altimg='' @ [dq] @ alt @ [dq] @ a2 @ ''>''
              @ content @ ''</math>'' @ post
        \<and> list_all (\<lambda>c. c \<noteq> CHR ''>'') a1 \<and> alt \<noteq> []
        \<and> list_all (\<lambda>c. c \<noteq> dq) alt \<and> list_all (\<lambda>c. c \<noteq> CHR ''>'') a2"
proof (induction s rule: findall.induct)
  case (1 s)
  show ?case
  proof (cases "match_math s")
    case None
    show ?thesis
    proof (cases s)
      case Nil
      with None "1.prems" show ?thesis by (subst (asm) findall.simps) simp
    next
      case (Cons c cs)
      with None "1.prems" have "(alt, content) \<in> set (findall cs)"
        by (subst (asm) findall.simps) simp
      from "1.IH"(1)[OF None Cons this] obtain pre a1 a2 post where
        "cs = pre @ ''<math'' @ a1 @ ''altimg='' @ [dq] @ alt @ [dq] @ a2 @ ''>''
              @ content @ ''</math>'' @ post"
        "list_all (\<lambda>c. c \<noteq> CHR ''>'') a1" "alt \<noteq> []"
        "list_all (\<lambda>c. c \<noteq> dq) alt" "list_all (\<lambda>c. c \<noteq> CHR ''>'') a2"
        by blast
      with Cons have "s = (c # pre) @ ''<math'' @ a1 @ ''altimg='' @ [dq] @ alt @ [dq] @ a2 @ ''>''
              @ content @ ''</math>'' @ post
        \<and> list_all (\<lambda>c. c \<noteq> CHR ''>'') a1 \<and> alt \<noteq> []
        \<and> list_all (\<lambda>c. c \<noteq> dq) alt \<and> list_all (\<lambda>c. c \<noteq> CHR ''>'') a2"
        by simp
      then show ?thesis by blast
    qed
  next
    case (Some m)
    obtain alt' content' rest where m: "m = (alt', content', rest)" by (cases m)
    from Some m "1.prems" have
      mem: "(alt, content) = (alt', content') \<or> (alt, content) \<in> set (findall rest)"
      by (subst (asm) findall.simps) auto
    from match_math_SomeD[OF Some[unfolded m]] obtain b1 b2 where
      s: "s = ''<math'' @ b1 @ ''altimg='' @ [dq] @ alt' @ [dq] @ b2 @ ''>''
              @ content' @ ''</math>'' @ rest"
      and b: "list_all (\<lambda>c. c \<noteq> CHR ''>'') b1" "alt' \<noteq> []"
        "list_all (\<lambda>c. c \<noteq> dq) alt'" "list_all (\<lambda>c. c \<noteq> CHR ''>'') b2"
      by blast
    from mem show ?thesis
    proof
      assume "(alt, content) = (alt', content')"
      with s b have "s = [] @ ''<math'' @ b1 @ ''altimg='' @ [dq] @ alt @ [dq] @ b2 @ ''>''
              @ content @ ''</math>'' @ rest
        \<and> list_all (\<lambda>c. c \<noteq> CHR ''>'') b1 \<and> alt \<noteq> []
        \<and> list_all (\<lambda>c. c \<noteq> dq) alt \<and> list_all (\<lambda>c. c \<noteq> CHR ''>'') b2"
        by simp
      then show ?thesis by blast
    next
      assume "(alt, content) \<in> set (findall rest)"
      from "1.IH"(2)[OF Some m[symmetric] refl this] obtain pre a1 a2 post where
        r: "rest = pre @ ''<math'' @ a1 @ ''altimg='' @ [dq] @ alt @ [dq] @ a2 @ ''>''
              @ content @ ''</math>'' @ post"
        and a: "list_all (\<lambda>c. c \<noteq> CHR ''>'') a1" "alt \<noteq> []"
        "list_all (\<lambda>c. c \<noteq> dq) alt" "list_all (\<lambda>c. c \<noteq> CHR ''>'') a2"
        by blast
      have "s = (''<math'' @ b1 @ ''altimg='' @ [dq] @ alt' @ [dq] @ b2 @ ''>''
              @ content' @ ''</math>'' @ pre) @ ''<math'' @ a1 @ ''altimg='' @ [dq] @ alt @ [dq] @ a2 @ ''>''
              @ content @ ''</math>'' @ post"
        unfolding s r by simp
      with a show ?thesis by blast
    qed
  qed
qed





section \<open>Properties of failure recovery\<close>

lemma contains_iff_sublist: "contains sub s \<longleftrightarrow> sublist sub s"
proof (induction s)
  case Nil
  show ?case by simp
next
  case (Cons c cs)
  show ?case
    by (simp add: Cons.IH sublist_Cons_right)
qed

lemma is_popup_title_iff: "is_popup_title (window_text w) = is_popup w"
  by (simp add: is_popup_title_def is_popup_def contains_iff_sublist)

lemma detected_titles_append [simp]:
  "detected_titles (a @ b) = detected_titles a @ detected_titles b"
  by (simp add: detected_titles_def)

lemma escaped_titles_append [simp]:
  "escaped_titles (a @ b) = escaped_titles a @ escaped_titles b"
  by (simp add: escaped_titles_def)

lemma dismiss_loop_contract:
  "fst (dismiss_loop ws st) = list_ex (\<lambda>w. is_popup w \<and> dismissable w) ws
   \<and> (\<exists>d. log (snd (dismiss_loop ws st)) = log st @ d
          \<and> detected_titles d = map window_text (attempted ws)
          \<and> escaped_titles d
              = (case find (\<lambda>w. is_popup w \<and> dismissable w) ws of
                   None \<Rightarrow> [] | Some w \<Rightarrow> [window_text w]))"
proof (induction ws arbitrary: st)
  case Nil
  show ?case by (simp add: detected_titles_def escaped_titles_def)
next
  case (Cons w ws)
  show ?case
  proof (cases "is_popup w")
    case False
    with Cons.IH[of st] show ?thesis by (simp add: is_popup_title_iff)
  next
    case True
    define st2 where "st2 = (if print_ok w then emit (Popup_detected (window_text w)) st
       else emit Failed_to_print_identifiers (emit (Popup_detected (window_text w)) st))"
    have l2: "log st2 = log st @ (if print_ok w then [Popup_detected (window_text w)]
       else [Popup_detected (window_text w), Failed_to_print_identifiers])"
      by (simp add: st2_def)
    show ?thesis
    proof (cases "dismissable w")
      case d: True
      have "dismiss_loop (w # ws) st = (True, emit (Sent_ESC_to_popup (window_text w)) st2)"
        using True d by (simp add: is_popup_title_iff dismissable_def Let_def st2_def)
      with True d l2 show ?thesis
        by (simp add: detected_titles_def escaped_titles_def)
    next
      case d: False
      have e: "dismiss_loop (w # ws) st
                 = dismiss_loop ws (emit (Failed_to_send_keys (window_text w)) st2)"
        using True d by (auto simp: is_popup_title_iff dismissable_def Let_def st2_def)
      from Cons.IH[of "emit (Failed_to_send_keys (window_text w)) st2"] obtain d' where
        r: "fst (dismiss_loop ws (emit (Failed_to_send_keys (window_text w)) st2))
              = list_ex (\<lambda>w. is_popup w \<and> dismissable w) ws"
        and l: "log (snd (dismiss_loop ws (emit (Failed_to_send_keys (window_text w)) st2)))
              = log (emit (Failed_to_send_keys (window_text w)) st2) @ d'"
        and t: "detected_titles d' = map window_text (attempted ws)"
        and x: "escaped_titles d'
              = (case find (\<lambda>w. is_popup w \<and> dismissable w) ws of
                   None \<Rightarrow> [] | Some w \<Rightarrow> [window_text w])"
        by blast
      let ?d = "(if print_ok w then [Popup_detected (window_text w)]
       else [Popup_detected (window_text w), Failed_to_print_identifiers])
         @ [Failed_to_send_keys (window_text w)] @ d'"
      have "log (snd (dismiss_loop (w # ws) st)) = log st @ ?d"
        unfolding e l by (simp add: l2)
      moreover have "detected_titles ?d = map window_text (attempted (w # ws))"
        using True d t by (simp add: detected_titles_def)
      moreover have "escaped_titles ?d
              = (case find (\<lambda>w. is_popup w \<and> dismissable w) (w # ws) of
                   None \<Rightarrow> [] | Some w \<Rightarrow> [window_text w])"
        using True d x by (simp add: escaped_titles_def)
      moreover have "fst (dismiss_loop (w # ws) st)
              = list_ex (\<lambda>w. is_popup w \<and> dismissable w) (w # ws)"
        unfolding e r using d by simp
      ultimately show ?thesis by blast
    qed
  qed
qed

text \<open>
  Claim C9. \<open>dismiss_error_popup\<close> goes through the enumerated windows in order. On
  each window whose title, lower-cased, contains one of error, math, warning, confirm,
  save, server it attempts focus and ESC (the titles of the \<open>Popup detected\<close> records
  are those of the attempted windows), it stops with the first attempt that succeeds
  (ESC is reported for that window only), and it returns true exactly when some popup
  could be dismissed, so false when no title matches or every attempt fails. When the
  enumeration itself raises it returns false.
\<close>

theorem dismiss_error_popup_contract:
  "fst (dismiss_error_popup (Inr ws) st) = list_ex (\<lambda>w. is_popup w \<and> dismissable w) ws
   \<and> (\<exists>d. log (snd (dismiss_error_popup (Inr ws) st)) = log st @ d
          \<and> detected_titles d = map window_text (attempted ws)
          \<and> escaped_titles d
              = (case find (\<lambda>w. is_popup w \<and> dismissable w) ws of
                   None \<Rightarrow> [] | Some w \<Rightarrow> [window_text w]))
   \<and> \<not> fst (dismiss_error_popup (Inl e) st)"
  using dismiss_loop_contract[of ws st] by (simp add: dismiss_error_popup_def)

theorem dismiss_error_popup_contract_witness:
  "fst (dismiss_error_popup (Inr [toolbar, error_dialog, save_dialog, mathtype_window])
          initial_state)
   \<and> (\<exists>d. log (snd (dismiss_error_popup (Inr [toolbar, error_dialog, save_dialog, mathtype_window])
                        initial_state)) = log initial_state @ d
          \<and> detected_titles d = [''MathType Error'', ''SAVE As'']
          \<and> escaped_titles d = [''SAVE As''])
   \<and> \<not> fst (dismiss_error_popup (Inl (ControlError ''windows'')) initial_state)"
proof -
  have p: "\<not> is_popup toolbar" "is_popup error_dialog" "is_popup save_dialog"
    unfolding is_popup_title_iff[symmetric] by code_simp+
  have d: "\<not> dismissable error_dialog" "dismissable save_dialog"
    by (simp_all add: dismissable_def error_dialog_def save_dialog_def)
  have t: "window_text error_dialog = ''MathType Error''" "window_text save_dialog = ''SAVE As''"
    by (simp_all add: error_dialog_def save_dialog_def)
  from dismiss_error_popup_contract
         [of "[toolbar, error_dialog, save_dialog, mathtype_window]" initial_state
             "ControlError ''windows''"]
  show ?thesis by (simp add: p d t)
qed

section \<open>The main window is not found\<close>

lemma get_main_window_never_shows:
  "never_shows polls \<Longrightarrow> get_main_window polls = Inr None"
proof (induction polls)
  case Nil
  show ?case by simp
next
  case (Cons p polls)
  then show ?case by (cases p) (simp_all add: never_shows_def)
qed

lemma save_as_eps_RuntimeError:
  "save_as_eps env st = (Inl (RuntimeError m), st1) \<Longrightarrow> st1 = st"
  by (auto simp: save_as_eps_def Let_def split: sum.splits option.splits if_splits)

lemma happy_path_RuntimeError:
  assumes "happy_path pm env st = (Inl (RuntimeError m), st1)"
  shows "eqn_counter st1 = eqn_counter st"
proof -
  define name where "name = ''Eqn'' @ str_int (eqn_counter st) @ ''.eps''"
  define applied where "applied =
    (case pm name of
      None \<Rightarrow> (Inr (), emit (No_preference_found name) st)
    | Some preference \<Rightarrow>
        if preference \<noteq> [] then apply_preferences env preference st
        else (Inr (), emit (No_preference_found name) st))"
  obtain r sa where ap: "applied = (r, sa)" by (cases applied)
  have keep: "eqn_counter sa = eqn_counter st"
    using preference_stage_keeps[where pm=pm and name=name and st=st and env=env and r=r and ?st1.0=sa]
      ap unfolding applied_def by simp
  obtain r2 sb where sv: "save_as_eps env sa = (r2, sb)" by (cases "save_as_eps env sa")
  note hp = happy_path_unfold[where pm=pm and st=st and env=env,
      OF ap[unfolded applied_def name_def] sv]
  show ?thesis
  proof (cases r2)
    case (Inl e2)
    with sv save_as_eps_RuntimeError[of env sa m sb] keep assms show ?thesis
      unfolding hp by (auto split: if_splits sum.splits)
  next
    case (Inr n)
    with keep assms show ?thesis
      unfolding hp by (auto split: if_splits sum.splits)
  qed
qed

text \<open>
  Claim C7 (as amended). \<open>get_main_window\<close> returns \<open>None\<close> when the timeout passes
  without the main window showing; it does not raise for that. What a caller makes of
  \<open>None\<close> depends on the step. In \<open>save_as_eps\<close> it is raised as a \<open>RuntimeError\<close>
  with the counter untouched, and a unit whose \<open>try\<close> body ends in a \<open>RuntimeError\<close>
  gets the placeholder of its own index, the counter advanced by one, and the loop goes
  on with the next line. In \<open>apply_preferences\<close> it is a warning and the step returns
  normally; in \<open>close_current_window\<close> nothing is done and nothing is logged.
\<close>

theorem main_window_not_found_by_step:
  "(never_shows polls \<longrightarrow> get_main_window polls = Inr None)
   \<and> (never_shows (save_polls env) \<longrightarrow>
        save_as_eps env st
          = (Inl (RuntimeError ''MathType main window not found during EPS save.''), st))
   \<and> (happy_path pm (envs i) (emit (Processing_equation i) st) = (Inl (RuntimeError m), st1)
        \<and> strip line \<noteq> [] \<longrightarrow>
        artifacts (process_unit pm i (envs i) st)
          = artifacts st @ [''Eqn'' @ str_int (eqn_counter st) @ ''_failed.eps'']
        \<and> eqn_counter (process_unit pm i (envs i) st) = eqn_counter st + 1
        \<and> process_lines pm envs i (line # ls) st
            = process_lines pm envs (Suc i) ls (process_unit pm i (envs i) st))
   \<and> (never_shows (pref_polls env) \<longrightarrow>
        apply_preferences env preference_name st
          = (Inr (), emit Window_not_found_during_preference st))
   \<and> (never_shows (close_polls env) \<longrightarrow> close_current_window env st = st)"
proof -
  have a: "never_shows polls \<longrightarrow> get_main_window polls = Inr None"
    by (simp add: get_main_window_never_shows)
  have b: "never_shows (save_polls env) \<longrightarrow>
        save_as_eps env st
          = (Inl (RuntimeError ''MathType main window not found during EPS save.''), st)"
    by (simp add: save_as_eps_def get_main_window_never_shows)
  have c: "happy_path pm (envs i) (emit (Processing_equation i) st) = (Inl (RuntimeError m), st1)
        \<and> strip line \<noteq> [] \<longrightarrow>
        artifacts (process_unit pm i (envs i) st)
          = artifacts st @ [''Eqn'' @ str_int (eqn_counter st) @ ''_failed.eps'']
        \<and> eqn_counter (process_unit pm i (envs i) st) = eqn_counter st + 1
        \<and> process_lines pm envs i (line # ls) st
            = process_lines pm envs (Suc i) ls (process_unit pm i (envs i) st)"
  proof
    assume h: "happy_path pm (envs i) (emit (Processing_equation i) st) = (Inl (RuntimeError m), st1)
        \<and> strip line \<noteq> []"
    then have hp: "happy_path pm (envs i) (emit (Processing_equation i) st)
                     = (Inl (RuntimeError m), st1)" by simp
    from happy_path_RuntimeError[OF hp] have k: "eqn_counter st1 = eqn_counter st" by simp
    from happy_path_Inl[OF hp] have ar: "artifacts st1 = artifacts st" by simp
    have u: "process_unit pm i (envs i) st = recover i (RuntimeError m) (envs i) st1"
      by (simp add: process_unit_def hp)
    from recover_effect[of i "RuntimeError m" "envs i" st1] k ar h
    show "artifacts (process_unit pm i (envs i) st)
          = artifacts st @ [''Eqn'' @ str_int (eqn_counter st) @ ''_failed.eps'']
        \<and> eqn_counter (process_unit pm i (envs i) st) = eqn_counter st + 1
        \<and> process_lines pm envs i (line # ls) st
            = process_lines pm envs (Suc i) ls (process_unit pm i (envs i) st)"
      unfolding u by (simp add: Let_def u)
  qed
  have d: "never_shows (pref_polls env) \<longrightarrow>
        apply_preferences env preference_name st
          = (Inr (), emit Window_not_found_during_preference st)"
    by (simp add: apply_preferences_def get_main_window_never_shows)
  have e: "never_shows (close_polls env) \<longrightarrow> close_current_window env st = st"
    by (simp add: close_current_window_def get_main_window_never_shows)
  from a b c d e show ?thesis by blast
qed

theorem main_window_not_found_by_step_witness:
  "get_main_window no_main_window = Inr None
   \<and> save_as_eps window_missing_everywhere initial_state
       = (Inl (RuntimeError ''MathType main window not found during EPS save.''), initial_state)
   \<and> artifacts (process_unit Map.empty 1 window_missing_for_save initial_state)
       = [''Eqn1_failed.eps'']
   \<and> eqn_counter (process_unit Map.empty 1 window_missing_for_save initial_state) = 2
   \<and> process_lines Map.empty (\<lambda>i. window_missing_for_save) 1 [one_line] initial_state
       = process_unit Map.empty 1 window_missing_for_save initial_state
   \<and> apply_preferences window_missing_everywhere ''Times+Symbol 12'' initial_state
       = (Inr (), emit Window_not_found_during_preference initial_state)
   \<and> close_current_window window_missing_everywhere initial_state = initial_state"
proof -
  have n: "never_shows no_main_window" by code_simp
  have e: "never_shows (save_polls window_missing_everywhere)"
    "never_shows (pref_polls window_missing_everywhere)"
    "never_shows (close_polls window_missing_everywhere)"
    by code_simp+
  have h: "happy_path Map.empty ((\<lambda>i. window_missing_for_save) (1::nat))
             (emit (Processing_equation 1) initial_state)
           = (Inl (RuntimeError ''MathType main window not found during EPS save.''),
              emit (No_preference_found ''Eqn1.eps'') (emit (Processing_equation 1) initial_state))"
    by code_simp
  have l: "strip one_line \<noteq> []" by code_simp
  from main_window_not_found_by_step
         [of no_main_window window_missing_everywhere initial_state Map.empty
             "\<lambda>i. window_missing_for_save" 1
             "''MathType main window not found during EPS save.''"
             "emit (No_preference_found ''Eqn1.eps'') (emit (Processing_equation 1) initial_state)"
             one_line "[]" "''Times+Symbol 12''"]
       n e h l
  show ?thesis by (simp add: initial_state_def str_int_small)
qed

text \<open>
  Against C7 as stated. A unit for which the main window cannot be found while the
  preference is applied nor when the document is closed, but is found for the save:
  the unit produces the real artifact and no placeholder. And when the main window is
  not found at the start of \<open>process_mathml_blocks_from_file\<close>, where the result of
  \<open>get_main_window\<close> is used without the \<open>None\<close> check its other callers make, the
  \<open>AttributeError\<close> leaves the function: the run ends before any unit, with no
  artifact.
\<close>

theorem main_window_not_found_without_placeholder:
  "get_main_window (pref_polls window_missing_around_save) = Inr None
   \<and> get_main_window (close_polls window_missing_around_save) = Inr None
   \<and> artifacts (process_unit times_preference 1 window_missing_around_save initial_state)
       = [''Eqn1.eps'']
   \<and> fst (process_mathml_blocks_from_file (desktop_with one_line) ''mathml.txt'' Map.empty
            ((running_app (\<lambda>i. responsive))\<lparr>init_polls := no_main_window\<rparr>) initial_state)
       = Inl (AttributeError ''set_focus'')
   \<and> artifacts (snd (process_mathml_blocks_from_file (desktop_with one_line) ''mathml.txt''
            Map.empty ((running_app (\<lambda>i. responsive))\<lparr>init_polls := no_main_window\<rparr>)
            initial_state)) = []"
  by code_simp

section \<open>Properties of the preference loader\<close>

lemma universal_newlines_id: "CR \<notin> set s \<Longrightarrow> universal_newlines s = s"
  by (induction s rule: universal_newlines.induct) auto

lemma readlines_Nil_iff: "readlines s = [] \<longleftrightarrow> s = []"
  by (cases s) (auto split: list.splits)

lemma readlines_terminated:
  "readlines (a @ LF # b) = readlines (a @ [LF]) @ readlines b"
proof (induction a)
  case Nil
  show ?case by simp
next
  case (Cons c a)
  show ?case
  proof (cases "c = LF")
    case True
    with Cons.IH show ?thesis by simp
  next
    case False
    obtain l ls where r: "readlines (a @ [LF]) = l # ls"
      using readlines_Nil_iff[of "a @ [LF]"] by (cases "readlines (a @ [LF])") auto
    with False Cons.IH show ?thesis by simp
  qed
qed

lemma readlines_one_line: "LF \<notin> set l \<Longrightarrow> readlines (l @ [LF]) = [l @ [LF]]"
  by (induction l) auto

lemma readlines_after_complete_lines:
  assumes "pre = [] \<or> last pre = LF"
  shows "readlines (pre @ rest) = readlines pre @ readlines rest"
proof (cases "pre = []")
  case True
  then show ?thesis by simp
next
  case False
  with assms obtain a where p: "pre = a @ [LF]"
    by (metis append_butlast_last_id)
  show ?thesis unfolding p using readlines_terminated[of a rest] by simp
qed

lemma parse_report_lines_append:
  "parse_report_lines m (a @ b) = parse_report_lines (parse_report_lines m a) b"
  by (induction a arbitrary: m) (simp_all add: Let_def)

lemma short_line_skipped:
  assumes "length (split_on TAB (strip line)) < 2"
  shows "parse_report_lines m (before @ line # after) = parse_report_lines m (before @ after)"
  using assms by (simp add: parse_report_lines_append Let_def)

text \<open>
  Claim C6 (as amended). A line of the report with fewer than two tab-separated fields
  changes nothing: the mapping read from the lines with that line among them is the
  mapping read without it, and for a report file that holds such a line the loader
  gives what it gives for the file with the line deleted. A report file that can be
  read never makes the loader raise. A report path at which nothing exists gives the
  empty mapping and one warning, and the loader returns normally.
\<close>

theorem short_lines_skipped_missing_report_tolerated:
  "(length (split_on TAB (strip line)) < 2 \<longrightarrow>
      parse_report_lines m (before @ line # after) = parse_report_lines m (before @ after))
   \<and> (files w p = Some (Text (pre @ bad @ [LF] @ post))
      \<and> files w' p = Some (Text (pre @ post))
      \<and> CR \<notin> set (pre @ bad @ post) \<and> (pre = [] \<or> last pre = LF) \<and> LF \<notin> set bad
      \<and> length (split_on TAB (strip (bad @ [LF]))) < 2 \<longrightarrow>
      read_eps_preferences w p st = read_eps_preferences w' p st)
   \<and> (files w p = Some (Text content) \<longrightarrow>
      (\<exists>mapping. read_eps_preferences w p st = (Inr mapping, st)))
   \<and> (\<not> path_exists w p \<longrightarrow>
      read_eps_preferences w p st = (Inr Map.empty, emit (Preference_report_not_found p) st))"
proof -
  have a: "length (split_on TAB (strip line)) < 2 \<longrightarrow>
      parse_report_lines m (before @ line # after) = parse_report_lines m (before @ after)"
    by (simp add: short_line_skipped)
  have b: "files w p = Some (Text (pre @ bad @ [LF] @ post))
      \<and> files w' p = Some (Text (pre @ post))
      \<and> CR \<notin> set (pre @ bad @ post) \<and> (pre = [] \<or> last pre = LF) \<and> LF \<notin> set bad
      \<and> length (split_on TAB (strip (bad @ [LF]))) < 2 \<longrightarrow>
      read_eps_preferences w p st = read_eps_preferences w' p st"
  proof
    assume h: "files w p = Some (Text (pre @ bad @ [LF] @ post))
      \<and> files w' p = Some (Text (pre @ post))
      \<and> CR \<notin> set (pre @ bad @ post) \<and> (pre = [] \<or> last pre = LF) \<and> LF \<notin> set bad
      \<and> length (split_on TAB (strip (bad @ [LF]))) < 2"
    then have cr: "CR \<notin> set (pre @ bad @ [LF] @ post)" "CR \<notin> set (pre @ post)"
      by (auto simp: CR_def LF_def)
    from h have pre: "pre = [] \<or> last pre = LF" by simp
    from h have nl: "LF \<notin> set bad" by simp
    have "readlines (pre @ bad @ [LF] @ post) = readlines pre @ readlines (bad @ LF # post)"
      using readlines_after_complete_lines[OF pre, of "bad @ [LF] @ post"] by simp
    also have "readlines (bad @ LF # post) = [bad @ [LF]] @ readlines post"
      using readlines_terminated[of bad post] readlines_one_line[OF nl] by simp
    finally have l1: "readlines (pre @ bad @ [LF] @ post)
                        = readlines pre @ (bad @ [LF]) # readlines post" by simp
    have l2: "readlines (pre @ post) = readlines pre @ readlines post"
      by (rule readlines_after_complete_lines[OF pre])
    have "parse_report_lines Map.empty (readlines (pre @ bad @ [LF] @ post))
            = parse_report_lines Map.empty (readlines (pre @ post))"
      unfolding l1 l2 using h by (simp add: short_line_skipped)
    with h cr show "read_eps_preferences w p st = read_eps_preferences w' p st"
      by (simp add: read_eps_preferences_def path_exists_def read_text_def universal_newlines_id)
  qed
  have c: "files w p = Some (Text content) \<longrightarrow>
      (\<exists>mapping. read_eps_preferences w p st = (Inr mapping, st))"
    by (simp add: read_eps_preferences_def path_exists_def read_text_def)
  have d: "\<not> path_exists w p \<longrightarrow>
      read_eps_preferences w p st = (Inr Map.empty, emit (Preference_report_not_found p) st)"
    by (simp add: read_eps_preferences_def)
  from a b c d show ?thesis by blast
qed

theorem short_lines_skipped_missing_report_tolerated_witness:
  "parse_report_lines Map.empty
      ([''Eqn1.eps'' @ [TAB] @ ''Times+Symbol 12'' @ [LF]] @ (''no tab on this line'' @ [LF])
         # [''Eqn2.eps'' @ [TAB] @ ''Euclid 10'' @ [TAB] @ ''ignored'' @ [LF]])
     = parse_report_lines Map.empty
      ([''Eqn1.eps'' @ [TAB] @ ''Times+Symbol 12'' @ [LF]]
         @ [''Eqn2.eps'' @ [TAB] @ ''Euclid 10'' @ [TAB] @ ''ignored'' @ [LF]])
   \<and> read_eps_preferences (with_report (Text example_report) (installed_with one_unit_document))
        ''EquationFontReport.txt'' initial_state
     = read_eps_preferences
        (with_report (Text example_report_without_short_line) (installed_with one_unit_document))
        ''EquationFontReport.txt'' initial_state
   \<and> (\<exists>mapping. read_eps_preferences
          (with_report (Text example_report) (installed_with one_unit_document))
          ''EquationFontReport.txt'' initial_state = (Inr mapping, initial_state))
   \<and> read_eps_preferences (installed_with one_unit_document) ''EquationFontReport.txt''
        initial_state
     = (Inr Map.empty, emit (Preference_report_not_found ''EquationFontReport.txt'') initial_state)"
proof -
  let ?pre = "''Eqn1.eps'' @ [TAB] @ ''Times+Symbol 12'' @ [LF]"
  let ?bad = "''no tab on this line''"
  let ?post = "''Eqn2.eps'' @ [TAB] @ ''Euclid 10'' @ [TAB] @ ''ignored'' @ [LF]"
  let ?p = "''EquationFontReport.txt''"
  let ?with = "with_report (Text example_report) (installed_with one_unit_document)"
  let ?without = "with_report (Text example_report_without_short_line)
                    (installed_with one_unit_document)"
  have h1: "length (split_on TAB (strip (?bad @ [LF]))) < 2" by code_simp
  have h2: "files ?with ?p = Some (Text (?pre @ ?bad @ [LF] @ ?post))"
    by (simp add: with_report_def example_report_def)
  have h3: "files ?without ?p = Some (Text (?pre @ ?post))"
    by (simp add: with_report_def example_report_without_short_line_def)
  have h4: "CR \<notin> set (?pre @ ?bad @ ?post)" by (simp add: CR_def TAB_def LF_def)
  have h5: "?pre = [] \<or> last ?pre = LF" by simp
  have h6: "LF \<notin> set ?bad" by (simp add: LF_def)
  have h7: "files ?with ?p = Some (Text example_report)" by (simp add: with_report_def)
  have h8: "\<not> path_exists (installed_with one_unit_document) ?p"
    by (simp add: path_exists_def installed_with_def MATHTYPE_PATH_def)
  from short_lines_skipped_missing_report_tolerated
         [where line="?bad @ [LF]" and m=Map.empty and before="[?pre]" and after="[?post]"
            and w="?with" and p="?p" and pre="?pre" and bad="?bad" and post="?post"
            and w'="?without" and content=example_report and st=initial_state]
       h1 h2 h3 h4 h5 h6 h7
  have first: "parse_report_lines Map.empty ([?pre] @ (?bad @ [LF]) # [?post])
                 = parse_report_lines Map.empty ([?pre] @ [?post])
     \<and> read_eps_preferences ?with ?p initial_state = read_eps_preferences ?without ?p initial_state
     \<and> (\<exists>mapping. read_eps_preferences ?with ?p initial_state = (Inr mapping, initial_state))"
    by blast
  from short_lines_skipped_missing_report_tolerated
         [where line="?bad @ [LF]" and m=Map.empty and before="[?pre]" and after="[?post]"
            and w="installed_with one_unit_document" and p="?p" and pre="?pre" and bad="?bad"
            and post="?post" and w'="?without" and content=example_report and st=initial_state]
       h8
  have second: "read_eps_preferences (installed_with one_unit_document) ?p initial_state
     = (Inr Map.empty, emit (Preference_report_not_found ?p) initial_state)"
    by blast
  from first second show ?thesis by blast
qed

text \<open>What the loader makes of the example report: two entries, the third field of
  the last line ignored, the line without a tab skipped.\<close>

lemma example_report_mapping:
  "(case fst (read_eps_preferences
               (with_report (Text example_report) (installed_with one_unit_document))
               ''EquationFontReport.txt'' initial_state) of
      Inl e \<Rightarrow> []
    | Inr mapping \<Rightarrow> [mapping ''Eqn1.eps'', mapping ''Eqn2.eps'', mapping ''no tab on this line''])
   = [Some ''Times+Symbol 12'', Some ''Euclid 10'', None]"
  by code_simp

lemma main_stops_at_report:
  assumes "makedirs_does inp = Created new"
    and "pyperclip_installed inp"
    and "path_exists (w0\<lparr>dirs := dirs w0 \<union> new\<rparr>) (XML_FILE inp)"
    and "path_exists (w0\<lparr>dirs := dirs w0 \<union> new\<rparr>) MATHTYPE_PATH"
    and "extract_mathml_blocks (w0\<lparr>dirs := dirs w0 \<union> new\<rparr>) (XML_FILE inp)
           = Inr blocks"
    and "blocks \<noteq> []"
    and "write_mathml_to_file blocks (MATHML_TXT_PATH inp)
           (w0\<lparr>dirs := dirs w0 \<union> new\<rparr>)
           (emit (Found_math_blocks (length blocks)) initial_state) = (w1, st1)"
    and "read_eps_preferences w1 (REPORT_FILE inp) st1 = (Inl e, st2)"
  shows "main inp ui w0
           = \<lparr>outcome = Uncaught e, printed = [], final_world = w1, final_state = st2\<rparr>"
  using assms by (simp add: main_def Let_def)

text \<open>
  Against C6 as stated. The report file exists but cannot be read. The loader checks
  only that the path exists; \<open>open\<close> then raises, nothing catches the exception, and
  the run ends there, before any unit and with no artifact.
\<close>

theorem unreadable_report_is_fatal:
  "path_exists (with_report Unreadable (installed_with one_unit_document))
     ''EquationFontReport.txt''
   \<and> read_eps_preferences (with_report Unreadable (installed_with one_unit_document))
        ''EquationFontReport.txt'' initial_state
       = (Inl (OSError ''EquationFontReport.txt''), initial_state)
   \<and> outcome (main example_inputs (running_app (\<lambda>i. responsive))
        (with_report Unreadable (installed_with one_unit_document)))
       = Uncaught (OSError ''EquationFontReport.txt'')
   \<and> artifacts (final_state (main example_inputs (running_app (\<lambda>i. responsive))
        (with_report Unreadable (installed_with one_unit_document)))) = []"
proof -
  let ?start = "with_report Unreadable (installed_with one_unit_document)"
  let ?inp = example_inputs
  let ?made = "?start\<lparr>dirs := dirs ?start \<union> {''eps_output''}\<rparr>"
  let ?blocks = "[(math_unit ''a.png'' ''x'', ''a.png'')]"
  define w1 where "w1 = ?made\<lparr>files := (files ?made)(''mathml.txt'' \<mapsto>
     Text (concat (map (\<lambda>b. normalize_block (fst b)) ?blocks)))\<rparr>"
  define st1 where
    "st1 = emit (Saved_all_blocks ''mathml.txt'') (emit (Found_math_blocks (length ?blocks)) initial_state)"
  have p1: "path_exists ?start ''EquationFontReport.txt''"
    by (simp add: path_exists_def with_report_def)
  have p2: "read_eps_preferences ?start ''EquationFontReport.txt'' initial_state
       = (Inl (OSError ''EquationFontReport.txt''), initial_state)"
    by (simp add: read_eps_preferences_def path_exists_def read_text_def with_report_def)
  have a1: "makedirs_does ?inp = Created {''eps_output''}"
    by (simp add: example_inputs_def)
  have a2: "pyperclip_installed ?inp" by (simp add: example_inputs_def)
  have a3: "path_exists ?made (XML_FILE ?inp)"
    by (simp add: with_report_def installed_with_def example_inputs_def path_exists_def
          MATHTYPE_PATH_def)
  have a4: "path_exists ?made MATHTYPE_PATH"
    by (simp add: with_report_def installed_with_def example_inputs_def path_exists_def
          MATHTYPE_PATH_def)
  have "extract_mathml_blocks (installed_with one_unit_document) ''doc.xml'' = Inr ?blocks"
    by code_simp
  then have a5: "extract_mathml_blocks ?made (XML_FILE ?inp) = Inr ?blocks"
    by (simp add: extract_mathml_blocks_def read_text_def example_inputs_def installed_with_def
          with_report_def MATHTYPE_PATH_def)
  have a6: "?blocks \<noteq> []" by simp
  have a7: "write_mathml_to_file ?blocks (MATHML_TXT_PATH ?inp) ?made
              (emit (Found_math_blocks (length ?blocks)) initial_state) = (w1, st1)"
    by (simp add: write_mathml_to_file_def w1_def st1_def example_inputs_def)
  have a8: "read_eps_preferences w1 (REPORT_FILE ?inp) st1
              = (Inl (OSError ''EquationFontReport.txt''), st1)"
    by (simp add: read_eps_preferences_def path_exists_def read_text_def w1_def with_report_def
          example_inputs_def)
  have "main ?inp (running_app (\<lambda>i. responsive)) ?start
          = \<lparr>outcome = Uncaught (OSError ''EquationFontReport.txt''), printed = [],
             final_world = w1, final_state = st1\<rparr>"
    by (rule main_stops_at_report[OF a1 a2 a3 a4 a5 a6 a7 a8])
  with p1 p2 show ?thesis by (simp add: st1_def initial_state_def)
qed

text \<open>A report that exists and cannot be read: the loader raises, in any file system.\<close>

lemma unreadable_report_raises:
  assumes "files w p = Some Unreadable"
  shows "read_eps_preferences w p st = (Inl (OSError p), st)"
  using assms by (simp add: read_eps_preferences_def path_exists_def read_text_def)

text \<open>A unit that gets as far as the save step and finds no main window there ends
  its \<open>try\<close> body in the \<open>RuntimeError\<close> of \<open>save_as_eps\<close>.\<close>

lemma save_without_main_window_raises:
  assumes "copy_ok env" "clear_keys_ok env" "paste_keys_ok env"
    and "(reaches_main_window (pref_polls env) \<and> select_keys_ok env)
         \<or> never_shows (pref_polls env)"
    and "never_shows (save_polls env)"
  shows "\<exists>st1. happy_path pm env st
           = (Inl (RuntimeError ''MathType main window not found during EPS save.''), st1)"
proof -
  let ?name = "''Eqn'' @ str_int (eqn_counter st) @ ''.eps''"
  have "\<exists>sa. (case pm ?name of
      None \<Rightarrow> (Inr (), emit (No_preference_found ?name) st)
    | Some preference \<Rightarrow>
        if preference \<noteq> [] then apply_preferences env preference st
        else (Inr (), emit (No_preference_found ?name) st)) = (Inr (), sa)"
  proof (cases "never_shows (pref_polls env)")
    case True
    then show ?thesis
      by (auto simp: apply_preferences_def get_main_window_never_shows split: option.splits)
  next
    case False
    with assms(4) have "reaches_main_window (pref_polls env)" "select_keys_ok env" by simp_all
    then show ?thesis by (rule preference_stage_succeeds)
  qed
  then obtain sa where p: "(case pm ?name of
      None \<Rightarrow> (Inr (), emit (No_preference_found ?name) st)
    | Some preference \<Rightarrow>
        if preference \<noteq> [] then apply_preferences env preference st
        else (Inr (), emit (No_preference_found ?name) st)) = (Inr (), sa)" by blast
  have s: "save_as_eps env sa
             = (Inl (RuntimeError ''MathType main window not found during EPS save.''), sa)"
    using assms(5) by (simp add: save_as_eps_def get_main_window_never_shows)
  show ?thesis
    unfolding happy_path_unfold[where pm=pm and st=st and env=env, OF p s] using assms(1-3)
    by (simp add: paste_mathml_to_mathtype_def)
qed

section \<open>Startup preconditions\<close>

text \<open>
  Claim C8 (as amended). The module body creates the output directory, with whatever
  is missing of its ancestors, before anything is checked, and the checks look at the
  file system as that has left it. Provided the creation succeeds, a run in which
  \<open>pyperclip\<close> is missing, or nothing exists under the input path, or nothing exists
  under the path of the MathType executable, or the document can be read and holds no
  unit, ends with \<open>sys.exit(1)\<close> after printing one message, the message of the first
  check that fails. No unit has been touched: counter, artifacts and log are as at the
  start. No file has been written. The directories created, however, are there, the
  output directory among them.
\<close>

theorem violated_precondition_stops_before_any_unit:
  assumes "makedirs_does inp = Created new"
    and "OUTPUT_DIR inp \<in> dirs w0 \<union> new"
    and "\<not> pyperclip_installed inp
         \<or> \<not> path_exists (w0\<lparr>dirs := dirs w0 \<union> new\<rparr>) (XML_FILE inp)
         \<or> \<not> path_exists (w0\<lparr>dirs := dirs w0 \<union> new\<rparr>) MATHTYPE_PATH
         \<or> (\<exists>doc. files w0 (XML_FILE inp) = Some (Text doc)
                    \<and> findall (universal_newlines doc) = [])"
  shows "outcome (main inp ui w0) = Exit 1
       \<and> exit_status (outcome (main inp ui w0)) \<noteq> 0
       \<and> printed (main inp ui w0)
           = [if \<not> pyperclip_installed inp then Please_install_pyperclip
              else if \<not> path_exists (w0\<lparr>dirs := dirs w0 \<union> new\<rparr>) (XML_FILE inp)
                then XML_file_does_not_exist (XML_FILE inp)
              else if \<not> path_exists (w0\<lparr>dirs := dirs w0 \<union> new\<rparr>) MATHTYPE_PATH
                then MathType_not_found_at_path MATHTYPE_PATH
              else No_math_blocks_found]
       \<and> final_state (main inp ui w0) = initial_state
       \<and> files (final_world (main inp ui w0)) = files w0
       \<and> dirs (final_world (main inp ui w0)) = dirs w0 \<union> new
       \<and> path_exists (final_world (main inp ui w0)) (OUTPUT_DIR inp)"
proof -
  let ?made = "w0\<lparr>dirs := dirs w0 \<union> new\<rparr>"
  have o: "path_exists ?made (OUTPUT_DIR inp)"
    using assms(2) by (simp add: path_exists_def)
  show ?thesis
  proof (cases "pyperclip_installed inp \<and> path_exists ?made (XML_FILE inp)
                  \<and> path_exists ?made MATHTYPE_PATH")
    case False
    with assms(1) o show ?thesis
      by (auto simp: main_def Let_def exit_status_def)
  next
    case True
    with assms(3) obtain doc where d: "files w0 (XML_FILE inp) = Some (Text doc)"
      and e: "findall (universal_newlines doc) = []"
      by auto
    from d e have x: "extract_mathml_blocks ?made (XML_FILE inp) = Inr []"
      by (simp add: extract_mathml_blocks_def read_text_def)
    from True assms(1) x o show ?thesis
      by (auto simp: main_def Let_def exit_status_def)
  qed
qed

theorem violated_precondition_stops_before_any_unit_witness:
  "outcome (main example_inputs (running_app (\<lambda>i. responsive)) without_document) = Exit 1
   \<and> exit_status (outcome (main example_inputs (running_app (\<lambda>i. responsive)) without_document))
       \<noteq> 0
   \<and> printed (main example_inputs (running_app (\<lambda>i. responsive)) without_document)
       = [XML_file_does_not_exist ''doc.xml'']
   \<and> final_state (main example_inputs (running_app (\<lambda>i. responsive)) without_document)
       = initial_state
   \<and> files (final_world (main example_inputs (running_app (\<lambda>i. responsive)) without_document))
       = files without_document
   \<and> dirs (final_world (main example_inputs (running_app (\<lambda>i. responsive)) without_document))
       = dirs without_document \<union> {''eps_output''}
   \<and> path_exists (final_world (main example_inputs (running_app (\<lambda>i. responsive))
        without_document)) ''eps_output''"
proof -
  let ?made = "without_document\<lparr>dirs := dirs without_document \<union> {''eps_output''}\<rparr>"
  have h1: "makedirs_does example_inputs = Created {''eps_output''}"
    by (simp add: example_inputs_def)
  have h2: "OUTPUT_DIR example_inputs \<in> dirs without_document \<union> {''eps_output''}"
    by (simp add: example_inputs_def)
  have x: "\<not> path_exists ?made (XML_FILE example_inputs)"
    by (simp add: without_document_def example_inputs_def MATHTYPE_PATH_def path_exists_def)
  then have h3: "\<not> pyperclip_installed example_inputs
         \<or> \<not> path_exists ?made (XML_FILE example_inputs)
         \<or> \<not> path_exists ?made MATHTYPE_PATH
         \<or> (\<exists>doc. files without_document (XML_FILE example_inputs) = Some (Text doc)
                    \<and> findall (universal_newlines doc) = [])"
    by blast
  have p: "pyperclip_installed example_inputs" "XML_FILE example_inputs = ''doc.xml''"
    "OUTPUT_DIR example_inputs = ''eps_output''"
    by (simp_all add: example_inputs_def)
  from violated_precondition_stops_before_any_unit
         [OF h1 h2 h3, of "running_app (\<lambda>i. responsive)"] x
  show ?thesis by (simp add: p exit_status_def)
qed

text \<open>
  Against C8 as stated. The input path \<open>doc.xml\<close> does not exist: the run prints its
  message and exits with status 1, and the output directory, which was not there
  before, has been created. When the path typed is \<open>eps_output\<close> in the working
  directory, the output directory computed from it is that same path: the directory is
  created first, the existence check then passes, and the run ends with the uncaught
  exception of \<open>open\<close> on a directory instead of the message. The same happens for
  the path \<open>newdir/\<close> when \<open>newdir\<close> does not exist: creating the output directory
  \<open>newdir\eps_output\<close> creates \<open>newdir\<close>.
\<close>

theorem output_directory_is_created_before_the_checks:
  "\<not> path_exists without_document ''doc.xml''
   \<and> \<not> path_exists without_document ''eps_output''
   \<and> outcome (main example_inputs (running_app (\<lambda>i. responsive)) without_document) = Exit 1
   \<and> path_exists (final_world (main example_inputs (running_app (\<lambda>i. responsive))
        without_document)) ''eps_output''
   \<and> outcome (main output_dir_as_input (running_app (\<lambda>i. responsive)) without_document)
       = Uncaught (OSError ''eps_output'')
   \<and> printed (main output_dir_as_input (running_app (\<lambda>i. responsive)) without_document) = []
   \<and> \<not> path_exists without_document ''newdir/''
   \<and> outcome (main new_directory_as_input (running_app (\<lambda>i. responsive)) without_document)
       = Uncaught (OSError ''newdir/'')
   \<and> printed (main new_directory_as_input (running_app (\<lambda>i. responsive)) without_document) = []"
  by (simp add: main_def Let_def path_exists_def without_document_def example_inputs_def
        output_dir_as_input_def new_directory_as_input_def MATHTYPE_PATH_def
        extract_mathml_blocks_def read_text_def)

section \<open>From the units of the document to the lines of the intermediate file\<close>

text \<open>
  Every unit the extractor finds becomes one non-blank line of the intermediate file,
  in document order, so the loop of \<open>process_mathml_blocks_from_file\<close> processes as many
  units as the document holds.
\<close>

lemma universal_newlines_no_CR: "CR \<notin> set (universal_newlines s)"
  by (induction s rule: universal_newlines.induct) (auto simp: CR_def LF_def)

lemma filter_dropWhile_not:
  "filter (\<lambda>x. \<not> P x) (dropWhile P xs) = filter (\<lambda>x. \<not> P x) xs"
  by (induction xs) auto

lemma filter_strip: "filter (\<lambda>c. \<not> is_space c) (strip s) = filter (\<lambda>c. \<not> is_space c) s"
proof -
  have "filter (\<lambda>c. \<not> is_space c) (strip s)
          = rev (filter (\<lambda>c. \<not> is_space c) (dropWhile is_space (rev (dropWhile is_space s))))"
    by (simp add: strip_def rev_filter)
  also have "\<dots> = rev (filter (\<lambda>c. \<not> is_space c) (rev (dropWhile is_space s)))"
    by (simp only: filter_dropWhile_not)
  also have "\<dots> = filter (\<lambda>c. \<not> is_space c) (dropWhile is_space s)"
    by (simp add: rev_filter[symmetric])
  also have "\<dots> = filter (\<lambda>c. \<not> is_space c) s"
    by (rule filter_dropWhile_not)
  finally show ?thesis .
qed

lemma strip_Nil_iff: "strip s = [] \<longleftrightarrow> filter (\<lambda>c. \<not> is_space c) s = []"
proof
  assume "strip s = []"
  then have "filter (\<lambda>c. \<not> is_space c) (strip s) = []" by simp
  then show "filter (\<lambda>c. \<not> is_space c) s = []" by (simp add: filter_strip)
next
  assume a: "filter (\<lambda>c. \<not> is_space c) s = []"
  then have "list_all is_space s" by (simp add: filter_empty_conv list_all_iff)
  then have d: "dropWhile is_space s = []" by (simp add: dropWhile_eq_Nil_conv list_all_iff)
  show "strip s = []" unfolding strip_def d by simp
qed

lemma set_strip: "set (strip s) \<subseteq> set s"
proof -
  have "set (strip s) = set (dropWhile is_space (rev (dropWhile is_space s)))"
    by (simp add: strip_def)
  also have "\<dots> \<subseteq> set (rev (dropWhile is_space s))" by (rule set_dropWhileD[THEN subsetI])
  also have "\<dots> \<subseteq> set s" using set_dropWhileD[of _ is_space s] by auto
  finally show ?thesis .
qed

lemma is_space_LF: "is_space LF"
  by (simp add: is_space_def LF_def)

lemma normalize_block_shape:
  "\<exists>l. normalize_block b = l @ [LF] \<and> LF \<notin> set l \<and> set l \<subseteq> set b"
  using set_strip[of b] by (auto simp: normalize_block_def)

lemma normalize_block_not_blank:
  assumes "\<exists>c \<in> set b. \<not> is_space c"
  shows "strip (normalize_block b) \<noteq> []"
proof -
  from assms have "filter (\<lambda>c. \<not> is_space c) b \<noteq> []"
    by (simp add: filter_empty_conv)
  then have "filter (\<lambda>c. \<not> is_space c) (strip b) \<noteq> []" by (simp add: filter_strip)
  then obtain c where c: "c \<in> set (strip b)" "\<not> is_space c"
    by (auto simp: filter_empty_conv)
  with is_space_LF have "c \<noteq> LF" by auto
  with c have "c \<in> set (normalize_block b)" by (simp add: normalize_block_def)
  with c(2) have "filter (\<lambda>c. \<not> is_space c) (normalize_block b) \<noteq> []"
    by (auto simp: filter_empty_conv)
  then show ?thesis by (simp add: strip_Nil_iff)
qed

lemma readlines_of_lines:
  assumes "list_all (\<lambda>l. \<exists>t. l = t @ [LF] \<and> LF \<notin> set t) ls"
  shows "readlines (concat ls) = ls"
  using assms
proof (induction ls)
  case Nil
  show ?case by simp
next
  case (Cons l ls)
  then obtain t where t: "l = t @ [LF]" "LF \<notin> set t" by auto
  from Cons have r: "readlines (concat ls) = ls" by simp
  have "readlines (concat (l # ls)) = readlines (t @ LF # concat ls)"
    by (simp add: t)
  also have "\<dots> = readlines (t @ [LF]) @ readlines (concat ls)"
    by (rule readlines_terminated)
  also have "\<dots> = l # ls"
    by (simp add: readlines_one_line[OF t(2)] t(1) r)
  finally show ?case .
qed

lemma rebuilt_block_chars:
  assumes "(alt, content) \<in> set (findall s)" and "CR \<notin> set s"
  shows "CR \<notin> set (fst (rebuild (alt, content)))
       \<and> CHR ''<'' \<in> set (fst (rebuild (alt, content)))"
proof -
  from findall_member[OF assms(1)] obtain pre a1 a2 post where
    s: "s = pre @ ''<math'' @ a1 @ ''altimg='' @ [dq] @ alt @ [dq] @ a2 @ ''>''
              @ content @ ''</math>'' @ post" by blast
  from assms(2) show ?thesis unfolding s by (auto simp: rebuild_def CR_def dq_def)
qed

lemma intermediate_file_lines:
  assumes "extract_mathml_blocks w xml_path = Inr blocks"
  shows "readlines (universal_newlines (concat (map (\<lambda>b. normalize_block (fst b)) blocks)))
           = map (\<lambda>b. normalize_block (fst b)) blocks
       \<and> list_all (\<lambda>b. strip (normalize_block (fst b)) \<noteq> []) blocks"
proof -
  from assms obtain xml where x: "read_text w xml_path = Inr xml"
    and b: "blocks = map rebuild (findall xml)"
    by (auto simp: extract_mathml_blocks_def split: sum.splits)
  from x have cr: "CR \<notin> set xml"
    using universal_newlines_no_CR
    by (auto simp: read_text_def split: option.splits file_node.splits if_splits)
  have each: "CR \<notin> set (fst blk) \<and> CHR ''<'' \<in> set (fst blk)" if "blk \<in> set blocks" for blk
  proof -
    from that b obtain alt content where m: "(alt, content) \<in> set (findall xml)"
      and r: "blk = rebuild (alt, content)" by auto
    from rebuilt_block_chars[OF m cr] r show ?thesis by simp
  qed
  have nb: "list_all (\<lambda>b. strip (normalize_block (fst b)) \<noteq> []) blocks"
  proof -
    have "strip (normalize_block (fst blk)) \<noteq> []" if "blk \<in> set blocks" for blk
    proof -
      from each[OF that] have "CHR ''<'' \<in> set (fst blk)" by simp
      moreover have "\<not> is_space CHR ''<''" by (simp add: is_space_def)
      ultimately show ?thesis
        by (intro normalize_block_not_blank) blast
    qed
    then show ?thesis by (simp add: list_all_iff)
  qed
  let ?ls = "map (\<lambda>b. normalize_block (fst b)) blocks"
  have shape: "list_all (\<lambda>l. \<exists>t. l = t @ [LF] \<and> LF \<notin> set t) ?ls"
    using normalize_block_shape by (auto simp: list_all_iff)
  have "CR \<notin> set (concat ?ls)"
  proof
    assume "CR \<in> set (concat ?ls)"
    then obtain blk where m: "blk \<in> set blocks" and c: "CR \<in> set (normalize_block (fst blk))"
      by auto
    from normalize_block_shape[of "fst blk"] obtain l where
      "normalize_block (fst blk) = l @ [LF]" "set l \<subseteq> set (fst blk)" by blast
    with c have "CR \<in> set (fst blk)" by (auto simp: CR_def LF_def)
    with each[OF m] show False by auto
  qed
  then have "universal_newlines (concat ?ls) = concat ?ls" by (rule universal_newlines_id)
  with readlines_of_lines[OF shape] nb show ?thesis by simp
qed

text \<open>The three-unit scenario from the document to the artifacts, through \<open>main\<close>.\<close>

lemma three_units_document_end_to_end:
  "outcome (main example_inputs
      (running_app (\<lambda>i. if i = 2 then save_dialog_stalls else responsive))
      (installed_with three_units_document)) = Finished
   \<and> artifacts (final_state (main example_inputs
      (running_app (\<lambda>i. if i = 2 then save_dialog_stalls else responsive))
      (installed_with three_units_document))) = [''Eqn1.eps'', ''Eqn2_failed.eps'', ''Eqn3.eps'']
   \<and> eqn_counter (final_state (main example_inputs
      (running_app (\<lambda>i. if i = 2 then save_dialog_stalls else responsive))
      (installed_with three_units_document))) = 4"
proof -
  have e: "extract_mathml_blocks (installed_with three_units_document) ''doc.xml''
     = Inr [(math_unit ''a.png'' ''x'', ''a.png''), (math_unit ''b.png'' ''y'', ''b.png''),
            (math_unit ''c.png'' ''z'', ''c.png'')]"
    by code_simp
  have "artifacts (final_state (main example_inputs
      (running_app (\<lambda>i. if i = 2 then save_dialog_stalls else responsive))
      (installed_with three_units_document))) = [''Eqn1.eps'', ''Eqn2_failed.eps'', ''Eqn3.eps'']"
    unfolding main_on_installed[OF e, simplified, THEN conjunct2] by code_simp
  moreover have "eqn_counter (final_state (main example_inputs
      (running_app (\<lambda>i. if i = 2 then save_dialog_stalls else responsive))
      (installed_with three_units_document))) = 4"
    unfolding main_on_installed[OF e, simplified, THEN conjunct2] by code_simp
  ultimately show ?thesis
    using main_on_installed[OF e, simplified, THEN conjunct1] by simp
qed

end
